theory Spec2Isabelle
  imports Main
begin

section \<open>Values, rows and objects\<close>

text \<open>
  JavaScript values as the mapper and the tracker see them. Numbers are the integers
  (identifiers and counters are the only numbers the modelled code computes with); a
  \<open>Date\<close> value is identified by its serialised text. An object (a database row, the
  \<open>ModelValues\<close> of one record, a snapshot) is a finite map from property names to values;
  reading a property that is not there gives \<open>undefined\<close>.
\<close>

datatype jsvalue =
    Undefined
  | Null
  | Num int
  | Str string
  | Bool bool
  | DateV string
  | Obj "string \<Rightarrow> jsvalue option"
  | Arr "jsvalue list"

type_synonym obj = "string \<Rightarrow> jsvalue option"

definition prop_get :: "obj \<Rightarrow> string \<Rightarrow> jsvalue" where
  "prop_get ob k = (case ob k of None \<Rightarrow> Undefined | Some v \<Rightarrow> v)"

datatype error =
    ConfigurationError string
  | ValidationError string
  | TypeError string

section \<open>Metadata registry\<close>

datatype FieldType = Number | String | Boolean | Date

datatype RelationType = HasMany | BelongsTo

text \<open>
  The column description of \<open>getColumns\<close> (\<open>models_test.ts\<close>, lines 58-97): \<open>propertyKey\<close>,
  \<open>select\<close>, \<open>name\<close>, \<open>type\<close>, \<open>isPrimaryKey\<close>, \<open>isNullable\<close>, and the optional \<open>default\<close>
  of \<open>@Field({ default: ... })\<close> (lines 402-410), \<open>Undefined\<close> when none is declared.
\<close>

record column =
  propertyKey :: string
  select :: bool
  name :: string
  ftype :: FieldType
  isPrimaryKey :: bool
  isNullable :: bool
  default_value :: jsvalue

text \<open>
  The relation description of \<open>getRelations\<close> (\<open>models_test.ts\<close>, lines 99-113). \<open>getModel\<close>
  is the lazy reference to the related model class: a class identity of type \<open>'m\<close>, resolved
  through the registry when the relation is consulted.
\<close>

record 'm relation =
  rel_propertyKey :: string
  rel_type :: RelationType
  getModel :: 'm
  targetColumn :: string

record 'm modelClass =
  tableName :: string
  columns :: "column list"
  relations :: "'m relation list"

type_synonym 'm registry = "'m \<Rightarrow> 'm modelClass"

text \<open>
  Modelled from the spec: \<open>src/utils/models.ts\<close> is missing; section 4.1 gives the registry
  operations. \<open>getTableName\<close> returns the resolved table name, \<open>getColumns\<close> the ordered
  field descriptors, \<open>getRelations\<close> the relation descriptors, filtered to the given
  property keys when a filter is provided, and \<open>getPrimaryKeyInfo\<close> the descriptor with
  \<open>isPrimaryKey\<close>, failing with a configuration error when none is declared.
\<close>

definition getTableName :: "'m registry \<Rightarrow> 'm \<Rightarrow> string" where
  "getTableName reg M = tableName (reg M)"

definition getColumns :: "'m registry \<Rightarrow> 'm \<Rightarrow> column list" where
  "getColumns reg M = columns (reg M)"

definition getRelations :: "'m registry \<Rightarrow> 'm \<Rightarrow> string list option \<Rightarrow> 'm relation list" where
  "getRelations reg M includes =
     (case includes of
        None \<Rightarrow> relations (reg M)
      | Some ks \<Rightarrow> filter (\<lambda>r. rel_propertyKey r \<in> set ks) (relations (reg M)))"

definition getPrimaryKeyInfo :: "'m registry \<Rightarrow> 'm \<Rightarrow> error + column" where
  "getPrimaryKeyInfo reg M =
     (case find isPrimaryKey (getColumns reg M) of
        None \<Rightarrow> Inl (ConfigurationError ''no primary key'')
      | Some c \<Rightarrow> Inr c)"

section \<open>Relational result mapper\<close>

text \<open>
  Modelled from the spec: \<open>extractRelationalRecord\<close> and \<open>mapRelationalResult\<close> live in the
  missing \<open>src/utils/models.ts\<close>; section 4.3 and the fixtures of \<open>models_test.ts\<close>
  (lines 115-144 and 275-359) give their behaviour. The parser reads a declared field
  under the key \<open>table__propertyKey\<close> and stores it under its property key: the
  fixture row of the \<open>User\<close> model carries \<open>users__age\<close> for the field \<open>age\<close> whose column
  name is \<open>my_age\<close>.
\<close>

definition rowKey :: "string \<Rightarrow> string \<Rightarrow> string" where
  "rowKey table key = table @ ''__'' @ key"

fun extractFields :: "obj \<Rightarrow> string \<Rightarrow> column list \<Rightarrow> obj \<Rightarrow> obj" where
  "extractFields row table [] vals = vals"
| "extractFields row table (c # cs) vals =
     extractFields row table cs
       (vals(propertyKey c \<mapsto> prop_get row (rowKey table (propertyKey c))))"

definition rowValue :: "'m registry \<Rightarrow> 'm \<Rightarrow> column \<Rightarrow> obj \<Rightarrow> jsvalue" where
  "rowValue reg M c row = prop_get row (rowKey (getTableName reg M) (propertyKey c))"

definition extractRelationalRecord :: "'m registry \<Rightarrow> obj \<Rightarrow> 'm \<Rightarrow> obj" where
  "extractRelationalRecord reg row M =
     extractFields row (getTableName reg M) (getColumns reg M) Map.empty"


text \<open>
  Step 1 of section 4.3: rows are grouped by the value under the root's primary-key row
  key, a new value opening a new group behind the groups already there.
\<close>

fun addToGroup :: "jsvalue \<Rightarrow> obj \<Rightarrow> (jsvalue \<times> obj list) list \<Rightarrow> (jsvalue \<times> obj list) list" where
  "addToGroup k row [] = [(k, [row])]"
| "addToGroup k row ((k', rows) # gs) =
     (if k = k' then (k', rows @ [row]) # gs else (k', rows) # addToGroup k row gs)"

fun groupRows :: "(obj \<Rightarrow> jsvalue) \<Rightarrow> obj list \<Rightarrow> (jsvalue \<times> obj list) list \<Rightarrow> (jsvalue \<times> obj list) list" where
  "groupRows key [] groups = groups"
| "groupRows key (row # rows) groups = groupRows key rows (addToGroup (key row) row groups)"

text \<open>
  Step 3: a HasMany relation collects the related record of every row of the group whose
  related primary-key value is not null; a BelongsTo relation takes the related record of
  the first row, or null when its primary-key value is null.
\<close>

definition relationValue :: "'m registry \<Rightarrow> 'm relation \<Rightarrow> column \<Rightarrow> obj list \<Rightarrow> jsvalue" where
  "relationValue reg r rpk rows =
     (case rel_type r of
        HasMany \<Rightarrow>
          Arr (map (\<lambda>row. Obj (extractRelationalRecord reg row (getModel r)))
                 (filter (\<lambda>row. rowValue reg (getModel r) rpk row \<noteq> Null) rows))
      | BelongsTo \<Rightarrow>
          (case rows of
             [] \<Rightarrow> Null
           | first # _ \<Rightarrow>
               (let related = extractRelationalRecord reg first (getModel r)
                in if prop_get related (propertyKey rpk) = Null then Null else Obj related)))"

fun attachRelations :: "'m registry \<Rightarrow> 'm relation list \<Rightarrow> obj list \<Rightarrow> obj \<Rightarrow> error + obj" where
  "attachRelations reg [] rows record = Inr record"
| "attachRelations reg (r # rs) rows record =
     (case getPrimaryKeyInfo reg (getModel r) of
        Inl e \<Rightarrow> Inl e
      | Inr rpk \<Rightarrow>
          attachRelations reg rs rows
            (record(rel_propertyKey r \<mapsto> relationValue reg r rpk rows)))"

text \<open>Steps 2 and 4: one root object per group, from the group's first row.\<close>

fun mapGroups :: "'m registry \<Rightarrow> 'm \<Rightarrow> 'm relation list \<Rightarrow> (jsvalue \<times> obj list) list \<Rightarrow> error + obj list" where
  "mapGroups reg M rels [] = Inr []"
| "mapGroups reg M rels ((k, rows) # gs) =
     (case rows of
        [] \<Rightarrow> mapGroups reg M rels gs
      | first # _ \<Rightarrow>
          (case attachRelations reg rels rows (extractRelationalRecord reg first M) of
             Inl e \<Rightarrow> Inl e
           | Inr ob \<Rightarrow>
               (case mapGroups reg M rels gs of
                  Inl e \<Rightarrow> Inl e
                | Inr obs \<Rightarrow> Inr (ob # obs))))"

definition mapRelationalResult :: "'m registry \<Rightarrow> 'm \<Rightarrow> string list \<Rightarrow> obj list \<Rightarrow> error + obj list" where
  "mapRelationalResult reg M includes rows =
     (case getPrimaryKeyInfo reg M of
        Inl e \<Rightarrow> Inl e
      | Inr pk \<Rightarrow>
          mapGroups reg M (getRelations reg M (Some includes))
            (groupRows (rowValue reg M pk) rows []))"

text \<open>
  The order of first appearance, and the grouping it induces: what step 1 asks of the
  loop above.
\<close>

fun firstSeen :: "'a list \<Rightarrow> 'a list" where
  "firstSeen [] = []"
| "firstSeen (x # xs) = x # filter (\<lambda>y. y \<noteq> x) (firstSeen xs)"

definition groupOf :: "(obj \<Rightarrow> jsvalue) \<Rightarrow> obj list \<Rightarrow> jsvalue \<Rightarrow> obj list" where
  "groupOf key rows k = filter (\<lambda>row. key row = k) rows"

section \<open>Query construction in \<open>find\<close> and \<open>findOne\<close>\<close>

text \<open>
  \<open>model.ts\<close>, lines 98-102 and 228-232 (the root model) and lines 88-92 and 218-222 (an
  included relation's model): every column is selected as \<open>table.name\<close> under the alias
  \<open>table__name\<close>, \<open>name\<close> being the column name of the field.
\<close>

definition selectColumns :: "'m registry \<Rightarrow> 'm \<Rightarrow> (string \<times> string) list" where
  "selectColumns reg M =
     map (\<lambda>item. (getTableName reg M @ ''.'' @ name item,
                   getTableName reg M @ ''__'' @ name item))
       (getColumns reg M)"

section \<open>Instance state tracker\<close>

text \<open>
  A model instance: its class, its current field values (a property never assigned reads
  \<open>undefined\<close>), the saved flag and the snapshot of the last synchronised column values.
\<close>

record 'm modelInstance =
  cls :: 'm
  props :: "string \<Rightarrow> jsvalue"
  saved :: bool
  original :: "obj option"

text \<open>
  Modelled from the spec: \<open>normalizeModel\<close>, \<open>getValues\<close>, \<open>isSaved\<close>, \<open>setSaved\<close>,
  \<open>getOriginal\<close>, \<open>compareWithOriginal\<close>, \<open>getPrimaryKey\<close> and \<open>setPrimaryKey\<close> live in the
  missing \<open>src/utils/models.ts\<close>; section 4.2 and \<open>models_test.ts\<close> (lines 244-273 and
  373-456) give their behaviour. Normalisation coerces numeric strings to numbers in a
  Number field, the numbers 0 and 1 to booleans in a Boolean field, strings to dates in a
  Date field, and numbers and booleans to their text in a String field; every other value,
  \<open>undefined\<close> and \<open>null\<close> included, is left as it is.
\<close>

definition digitValue :: "char \<Rightarrow> nat option" where
  "digitValue c = map_of [(CHR ''0'', 0), (CHR ''1'', 1), (CHR ''2'', 2), (CHR ''3'', 3),
     (CHR ''4'', 4), (CHR ''5'', 5), (CHR ''6'', 6), (CHR ''7'', 7), (CHR ''8'', 8),
     (CHR ''9'', 9)] c"

fun parseDigits :: "string \<Rightarrow> nat \<Rightarrow> nat option" where
  "parseDigits [] acc = Some acc"
| "parseDigits (c # cs) acc =
     (case digitValue c of None \<Rightarrow> None | Some d \<Rightarrow> parseDigits cs (10 * acc + d))"

definition parseNumber :: "string \<Rightarrow> int option" where
  "parseNumber s =
     (case s of
        [] \<Rightarrow> None
      | c # cs \<Rightarrow>
          if c = CHR ''-'' then (if cs = [] then None else map_option (\<lambda>n. - int n) (parseDigits cs 0))
          else map_option int (parseDigits s 0))"

definition digitChar :: "nat \<Rightarrow> char" where
  "digitChar d = ''0123456789'' ! d"

function showNat :: "nat \<Rightarrow> string" where
  "showNat n = (if n < 10 then [digitChar n] else showNat (n div 10) @ [digitChar (n mod 10)])"
  by pat_completeness auto
termination
  by (relation "measure (\<lambda>n. n)") auto

declare showNat.simps [simp del]

definition showInt :: "int \<Rightarrow> string" where
  "showInt i = (if i < 0 then CHR ''-'' # showNat (nat (- i)) else showNat (nat i))"

fun normalizeValue :: "FieldType \<Rightarrow> jsvalue \<Rightarrow> jsvalue" where
  "normalizeValue Number (Str s) = (case parseNumber s of None \<Rightarrow> Str s | Some n \<Rightarrow> Num n)"
| "normalizeValue Boolean (Num n) =
     (if n = 0 then Bool False else if n = 1 then Bool True else Num n)"
| "normalizeValue Date (Str s) = DateV s"
| "normalizeValue String (Num n) = Str (showInt n)"
| "normalizeValue String (Bool b) = Str (if b then ''true'' else ''false'')"
| "normalizeValue ty v = v"

fun normalizeFields :: "column list \<Rightarrow> (string \<Rightarrow> jsvalue) \<Rightarrow> (string \<Rightarrow> jsvalue)" where
  "normalizeFields [] f = f"
| "normalizeFields (c # cs) f =
     normalizeFields cs (f(propertyKey c := normalizeValue (ftype c) (f (propertyKey c))))"

definition normalizeModel :: "'m registry \<Rightarrow> 'm modelInstance \<Rightarrow> 'm modelInstance" where
  "normalizeModel reg model =
     model\<lparr>props := normalizeFields (getColumns reg (cls model)) (props model)\<rparr>"

definition emptyMessage :: "string \<Rightarrow> string" where
  "emptyMessage key = ''Field '' @ [CHR 0x27] @ key @ [CHR 0x27] @ '' cannot be empty!''"

fun collectValues :: "(string \<Rightarrow> jsvalue) \<Rightarrow> column list \<Rightarrow> obj \<Rightarrow> error + obj" where
  "collectValues f [] data = Inr data"
| "collectValues f (c # cs) data =
     (if f (propertyKey c) = Undefined then
        (if default_value c \<noteq> Undefined then
           collectValues f cs (data(name c \<mapsto> default_value c))
         else if isNullable c then collectValues f cs (data(name c \<mapsto> Null))
         else Inl (ValidationError (emptyMessage (propertyKey c))))
      else collectValues f cs (data(name c \<mapsto> f (propertyKey c))))"

definition getValues :: "'m registry \<Rightarrow> 'm modelInstance \<Rightarrow> string list option \<Rightarrow> error + obj" where
  "getValues reg model keys =
     collectValues (props model)
       (case keys of
          None \<Rightarrow> getColumns reg (cls model)
        | Some ks \<Rightarrow> filter (\<lambda>c. propertyKey c \<in> set ks) (getColumns reg (cls model)))
       Map.empty"

definition isSaved :: "'m modelInstance \<Rightarrow> bool" where
  "isSaved model = saved model"

definition getOriginal :: "'m modelInstance \<Rightarrow> obj option" where
  "getOriginal model = original model"

definition setSaved :: "'m registry \<Rightarrow> 'm modelInstance \<Rightarrow> bool \<Rightarrow> error + 'm modelInstance" where
  "setSaved reg model flag =
     (if flag then
        (case getValues reg model None of
           Inl e \<Rightarrow> Inl e
         | Inr vals \<Rightarrow> Inr (model\<lparr>saved := True, original := Some vals\<rparr>))
      else Inr (model\<lparr>saved := False, original := None\<rparr>))"

definition compareWithOriginal :: "'m registry \<Rightarrow> 'm modelInstance \<Rightarrow> bool \<times> string list" where
  "compareWithOriginal reg model =
     (case getOriginal model of
        None \<Rightarrow> (True, [])
      | Some snapshot \<Rightarrow>
          (let changed = filter
                 (\<lambda>c. normalizeValue (ftype c) (props model (propertyKey c))
                        \<noteq> prop_get snapshot (name c))
                 (getColumns reg (cls model))
           in (changed \<noteq> [], map propertyKey changed)))"

definition getPrimaryKey :: "'m registry \<Rightarrow> 'm modelInstance \<Rightarrow> error + jsvalue" where
  "getPrimaryKey reg model =
     (case getPrimaryKeyInfo reg (cls model) of
        Inl e \<Rightarrow> Inl e
      | Inr pk \<Rightarrow> Inr (props model (propertyKey pk)))"

definition setPrimaryKey :: "'m registry \<Rightarrow> 'm modelInstance \<Rightarrow> jsvalue \<Rightarrow> error + 'm modelInstance" where
  "setPrimaryKey reg model v =
     (case getPrimaryKeyInfo reg (cls model) of
        Inl e \<Rightarrow> Inl e
      | Inr pk \<Rightarrow> Inr (model\<lparr>props := (props model)(propertyKey pk := v)\<rparr>))"

section \<open>The database adapter\<close>

text \<open>
  Modelled from the spec: the adapter (\<open>src/adapters/adapter.ts\<close>) is missing; section 6
  gives what the core consumes from it after an insert statement: a single last inserted
  identifier, a number, or the set of returned identifiers. The adapter's state is the
  dialect, the identifier it reports as last inserted, and the statements executed so far;
  \<open>answer\<close> is what the database does with a statement: the identifiers it returns (one
  row each, under the column of a returning clause) and the last inserted identifier it
  reports afterwards.
\<close>

datatype dialect = mysql | postgres | sqlite

datatype statement =
    Insert string "obj list" "string option"
  | Update string string jsvalue obj

record adapter =
  dialect :: dialect
  lastInsertedId :: int
  answer :: "statement \<Rightarrow> int list \<times> int"
  executed :: "statement list"

definition execute :: "statement \<Rightarrow> adapter \<Rightarrow> int list \<times> adapter" where
  "execute st a =
     (fst (answer a st),
      a\<lparr>lastInsertedId := snd (answer a st), executed := executed a @ [st]\<rparr>)"

text \<open>
  \<open>result[result.length - 1][primaryKey] as number\<close> (\<open>model.ts\<close>, lines 299 and 393): the
  identifier of the last returned row; on an empty result the read of a property of
  \<open>undefined\<close> throws a TypeError.
\<close>

definition lastReturned :: "int list \<Rightarrow> error + int" where
  "lastReturned result =
     (case result of
        [] \<Rightarrow> Inl (TypeError ''Cannot read properties of undefined'')
      | _ \<Rightarrow> Inr (last result))"

section \<open>Numbers\<close>

text \<open>
  An identifier is a JavaScript number, an IEEE-754 double, and \<open>+\<close> and \<open>-\<close> round their
  exact result to the nearest double, ties to the even significand. On integers:
  \<open>roundDouble\<close> keeps the 53 leading bits of the magnitude (the bound of the exponent,
  beyond \<open>2^1023\<close>, is left out). A safe integer is one of magnitude at most \<open>2^53 - 1\<close>,
  as \<open>Number.isSafeInteger\<close> has it.
\<close>

function bitLength :: "nat \<Rightarrow> nat" where
  "bitLength n = (if n = 0 then 0 else Suc (bitLength (n div 2)))"
  by pat_completeness auto
termination
  by (relation "measure (\<lambda>n. n)") auto

declare bitLength.simps [simp del]

definition roundDouble :: "int \<Rightarrow> int" where
  "roundDouble x =
     (let n = nat \<bar>x\<bar>;
          q = 2 ^ (bitLength n - 53);
          lo = (n div q) * q;
          r = n mod q
      in sgn x * int (if 2 * r < q then lo
                      else if q < 2 * r then lo + q
                      else if even (n div q) then lo else lo + q))"

definition jsAdd :: "int \<Rightarrow> int \<Rightarrow> int" where
  "jsAdd x y = roundDouble (x + y)"

definition jsSub :: "int \<Rightarrow> int \<Rightarrow> int" where
  "jsSub x y = roundDouble (x - y)"

definition safeInteger :: "int \<Rightarrow> bool" where
  "safeInteger x = (\<bar>x\<bar> \<le> 2 ^ 53 - 1)"

section \<open>Saving one instance\<close>

text \<open>
  \<open>Model.save\<close> (\<open>model.ts\<close>, lines 254-311). A throw is the value \<open>Inl\<close>; the result of a
  call that returns is the instance and the adapter as the call leaves them.
\<close>

definition save :: "'m registry \<Rightarrow> adapter \<Rightarrow> 'm modelInstance \<Rightarrow> error + ('m modelInstance \<times> adapter)" where
  "save reg a this0 =
     (let modelClass = cls this0;
          this = normalizeModel reg this0
      in case getPrimaryKeyInfo reg modelClass of
           Inl e \<Rightarrow> Inl e
         | Inr pk \<Rightarrow>
            (let primaryKey = name pk
             in if isSaved this then
                  (case compareWithOriginal reg this of
                     (isDirty, changedFields) \<Rightarrow>
                       if isDirty then
                         (case getValues reg this (Some changedFields) of
                            Inl e \<Rightarrow> Inl e
                          | Inr data \<Rightarrow>
                             (case getPrimaryKey reg this of
                                Inl e \<Rightarrow> Inl e
                              | Inr key \<Rightarrow>
                                 (case execute (Update (getTableName reg modelClass)
                                          primaryKey key data) a of
                                    (result, a1) \<Rightarrow>
                                      (case setSaved reg this True of
                                         Inl e \<Rightarrow> Inl e
                                       | Inr this2 \<Rightarrow> Inr (this2, a1)))))
                       else
                         (case setSaved reg this True of
                            Inl e \<Rightarrow> Inl e
                          | Inr this2 \<Rightarrow> Inr (this2, a)))
                else
                  (case getValues reg this None of
                     Inl e \<Rightarrow> Inl e
                   | Inr data \<Rightarrow>
                      (case execute (Insert (getTableName reg modelClass) [data]
                               (if dialect a = postgres then Some primaryKey else None)) a of
                         (result, a1) \<Rightarrow>
                           (case (if dialect a = postgres then lastReturned result
                                  else Inr (lastInsertedId a1)) of
                              Inl e \<Rightarrow> Inl e
                            | Inr lastId \<Rightarrow>
                               (case setPrimaryKey reg this (Num lastId) of
                                  Inl e \<Rightarrow> Inl e
                                | Inr this2 \<Rightarrow>
                                   (case setSaved reg this2 True of
                                      Inl e \<Rightarrow> Inl e
                                    | Inr this3 \<Rightarrow> Inr (this3, a1))))))))"

section \<open>Saving a batch\<close>

text \<open>
  Modelled from the spec: \<open>range\<close> of the missing \<open>src/utils/number.ts\<close> is the run of
  integers from its first argument through its second (section 4.4: the full run
  \<open>[lastId - N + 1 .. lastId]\<close>).
\<close>

definition range_int :: "int \<Rightarrow> int \<Rightarrow> int list" where
  "range_int start stop = [start..stop]"

text \<open>\<open>ids[index]\<close>: \<open>undefined\<close> beyond the end of the array.\<close>

definition idAt :: "int list \<Rightarrow> nat \<Rightarrow> jsvalue" where
  "idAt ids index = (if index < length ids then Num (ids ! index) else Undefined)"

text \<open>\<open>models.map((model) => getValues(model))\<close> (\<open>model.ts\<close>, line 373).\<close>

fun getAllValues :: "'m registry \<Rightarrow> 'm modelInstance list \<Rightarrow> error + obj list" where
  "getAllValues reg [] = Inr []"
| "getAllValues reg (model # models) =
     (case getValues reg model None of
        Inl e \<Rightarrow> Inl e
      | Inr vals \<Rightarrow>
          (case getAllValues reg models of
             Inl e \<Rightarrow> Inl e
           | Inr rest \<Rightarrow> Inr (vals # rest)))"

text \<open>
  The \<open>forEach\<close> of lines 403-406: \<open>setPrimaryKey(model, ids[index])\<close>, then
  \<open>setSaved(model, true)\<close>, for each model with its index.
\<close>

fun assignKeys :: "'m registry \<Rightarrow> 'm modelInstance list \<Rightarrow> int list \<Rightarrow> nat \<Rightarrow> error + 'm modelInstance list" where
  "assignKeys reg [] ids index = Inr []"
| "assignKeys reg (model # models) ids index =
     (case setPrimaryKey reg model (idAt ids index) of
        Inl e \<Rightarrow> Inl e
      | Inr model1 \<Rightarrow>
          (case setSaved reg model1 True of
             Inl e \<Rightarrow> Inl e
           | Inr model2 \<Rightarrow>
               (case assignKeys reg models ids (Suc index) of
                  Inl e \<Rightarrow> Inl e
                | Inr rest \<Rightarrow> Inr (model2 # rest))))"

text \<open>
  \<open>Model._bulkSave\<close> (\<open>model.ts\<close>, lines 371-409), for the model class \<open>M\<close>. The first
  identifier, \<open>lastInsertedId + 1 - models.length\<close>, is computed in doubles: the sum is
  rounded, then the difference.
\<close>

definition bulkSave :: "'m registry \<Rightarrow> adapter \<Rightarrow> 'm \<Rightarrow> 'm modelInstance list \<Rightarrow> error + ('m modelInstance list \<times> adapter)" where
  "bulkSave reg a M models =
     (case getAllValues reg models of
        Inl e \<Rightarrow> Inl e
      | Inr vals \<Rightarrow>
         (case getPrimaryKeyInfo reg M of
            Inl e \<Rightarrow> Inl e
          | Inr pk \<Rightarrow>
             (let primaryKey = name pk
              in case execute (Insert (getTableName reg M) vals
                        (if dialect a = postgres then Some primaryKey else None)) a of
                   (result, a1) \<Rightarrow>
                     (case (if dialect a = postgres then lastReturned result
                            else Inr (lastInsertedId a1)) of
                        Inl e \<Rightarrow> Inl e
                      | Inr lastId \<Rightarrow>
                         (let ids = range_int
                                (jsSub (jsAdd lastId 1) (int (length models))) lastId
                          in case assignKeys reg models ids 0 of
                               Inl e \<Rightarrow> Inl e
                             | Inr models' \<Rightarrow> Inr (models', a1))))))"

section \<open>Reading results\<close>

text \<open>
  What \<open>getValues\<close> writes for a column whose field is not empty, and when a field is
  empty: \<open>undefined\<close> with no default in a column that is not nullable.
\<close>

definition columnValue :: "(string \<Rightarrow> jsvalue) \<Rightarrow> column \<Rightarrow> jsvalue" where
  "columnValue f c =
     (if f (propertyKey c) \<noteq> Undefined then f (propertyKey c)
      else if default_value c \<noteq> Undefined then default_value c
      else Null)"

definition isEmptyField :: "(string \<Rightarrow> jsvalue) \<Rightarrow> column \<Rightarrow> bool" where
  "isEmptyField f c =
     (f (propertyKey c) = Undefined \<and> default_value c = Undefined \<and> \<not> isNullable c)"

text \<open>The statements a call has sent to the adapter, and what it returned.\<close>

definition statementsOf :: "error + ('x \<times> adapter) \<Rightarrow> statement list" where
  "statementsOf r = (case r of Inl e \<Rightarrow> [] | Inr (x, a) \<Rightarrow> executed a)"

definition savedModel :: "error + ('m modelInstance \<times> adapter) \<Rightarrow> 'm modelInstance option" where
  "savedModel r = (case r of Inl e \<Rightarrow> None | Inr (x, a) \<Rightarrow> Some x)"

definition savedModels :: "error + ('m modelInstance list \<times> adapter) \<Rightarrow> 'm modelInstance list" where
  "savedModels r = (case r of Inl e \<Rightarrow> [] | Inr (xs, a) \<Rightarrow> xs)"

section \<open>The models of the test suite\<close>


datatype testModel = User | Product | Post

definition idColumn :: column where
  "idColumn = \<lparr>propertyKey = ''id'', select = True, name = ''id'', ftype = Number,
     isPrimaryKey = True, isNullable = False, default_value = Undefined\<rparr>"

definition field :: "string \<Rightarrow> string \<Rightarrow> FieldType \<Rightarrow> column" where
  "field key col ty = \<lparr>propertyKey = key, select = True, name = col, ftype = ty,
     isPrimaryKey = False, isNullable = False, default_value = Undefined\<rparr>"

fun testRegistry :: "testModel registry" where
  "testRegistry User = \<lparr>tableName = ''users'',
     columns = [idColumn, field ''email'' ''email'' String, field ''age'' ''my_age'' Number],
     relations = [\<lparr>rel_propertyKey = ''products'', rel_type = HasMany, getModel = Product,
       targetColumn = ''user_id''\<rparr>]\<rparr>"
| "testRegistry Product = \<lparr>tableName = ''products'',
     columns = [idColumn, field ''title'' ''title'' String],
     relations = [\<lparr>rel_propertyKey = ''user'', rel_type = BelongsTo, getModel = User,
       targetColumn = ''user_id''\<rparr>]\<rparr>"
| "testRegistry Post = \<lparr>tableName = ''posts'',
     columns = [field ''title'' ''title'' String, field ''likes'' ''likes'' Number,
       field ''is_published'' ''is_published'' Boolean,
       field ''published_at'' ''published_at'' Date],
     relations = []\<rparr>"

definition spoonRow :: obj where
  "spoonRow = [''users__id'' \<mapsto> Num 1, ''users__email'' \<mapsto> Str ''a@b.com'',
     ''users__age'' \<mapsto> Num 16, ''products__title'' \<mapsto> Str ''Spoon'',
     ''products__id'' \<mapsto> Num 2]"


text \<open>The rows of the \<open>mapRelationalResult\<close> test (\<open>models_test.ts\<close>, lines 275-359).\<close>

definition joinedRow :: "jsvalue \<Rightarrow> jsvalue \<Rightarrow> jsvalue \<Rightarrow> jsvalue \<Rightarrow> jsvalue \<Rightarrow> obj" where
  "joinedRow uid email age title pid =
     [''users__id'' \<mapsto> uid, ''users__email'' \<mapsto> email, ''users__age'' \<mapsto> age,
      ''products__title'' \<mapsto> title, ''products__id'' \<mapsto> pid]"

definition usersWithProducts :: "obj list" where
  "usersWithProducts =
     [joinedRow (Num 1) (Str ''a@b.com'') (Num 16) (Str ''Spoon'') (Num 1),
      joinedRow (Num 1) (Str ''a@b.com'') (Num 16) (Str ''Rice'') (Num 2),
      joinedRow (Num 2) (Str ''b@c.com'') (Num 17) (Str ''Table'') (Num 3),
      joinedRow (Num 3) (Str ''c@d.com'') (Num 18) Null Null]"

definition productsWithUser :: "obj list" where
  "productsWithUser =
     [joinedRow (Num 1) (Str ''a@b.com'') (Num 16) (Str ''Spoon'') (Num 1),
      joinedRow (Num 1) (Str ''a@b.com'') (Num 16) (Str ''Rice'') (Num 2),
      joinedRow Null Null Null (Str ''Table'') (Num 3)]"

text \<open>
  A \<open>User\<close> not yet saved, its identifier left to the database, and an adapter of a given
  dialect that answers every statement with the same returned identifiers and last
  inserted identifier.
\<close>

definition newUser :: "jsvalue \<Rightarrow> jsvalue \<Rightarrow> testModel modelInstance" where
  "newUser email age =
     \<lparr>cls = User,
      props = (\<lambda>k. Undefined)(''id'' := Null, ''email'' := email, ''age'' := age),
      saved = False, original = None\<rparr>"

definition testAdapter :: "dialect \<Rightarrow> int list \<Rightarrow> int \<Rightarrow> adapter" where
  "testAdapter d rows lastId =
     \<lparr>dialect = d, lastInsertedId = 0, answer = (\<lambda>st. (rows, lastId)), executed = []\<rparr>"

definition threeUsers :: "testModel modelInstance list" where
  "threeUsers = [newUser (Str ''a@b.com'') (Num 16), newUser (Str ''b@c.com'') (Num 17),
     newUser (Str ''c@d.com'') (Num 18)]"

text \<open>
  The user of the tracker test (\<open>models_test.ts\<close>, lines 373-387) after \<open>setSaved(user, true)\<close>,
  with a given current value of \<open>age\<close>: \<open>savedUser (Num 16)\<close> is the user as saved,
  \<open>savedUser (Str ''16'')\<close> the same user after the assignment \<open>user.age = "16"\<close>.
\<close>

definition savedUser :: "jsvalue \<Rightarrow> testModel modelInstance" where
  "savedUser age =
     \<lparr>cls = User,
      props = (\<lambda>k. Undefined)(''id'' := Num 1, ''email'' := Str ''a@b.com'', ''age'' := age),
      saved = True,
      original = Some [''id'' \<mapsto> Num 1, ''email'' \<mapsto> Str ''a@b.com'', ''my_age'' \<mapsto> Num 16]\<rparr>"

text \<open>The row \<open>find\<close> receives for that user: its keys are the aliases of the select.\<close>

definition foundRow :: obj where
  "foundRow = [''users__id'' \<mapsto> Num 1, ''users__email'' \<mapsto> Str ''a@b.com'',
     ''users__my_age'' \<mapsto> Num 16]"

section \<open>Single-row extraction\<close>

lemma extractFields_lookup:
  "extractFields row t cs vals k =
     (if k \<in> propertyKey ` set cs then Some (prop_get row (rowKey t k)) else vals k)"
  by (induction cs arbitrary: vals) auto

lemma find_in_set: "find P xs = Some x \<Longrightarrow> x \<in> set xs"
  by (induction xs) (auto split: if_splits)

lemma getPrimaryKeyInfo_column:
  "getPrimaryKeyInfo reg M = Inr c \<Longrightarrow> c \<in> set (getColumns reg M)"
  by (auto simp: getPrimaryKeyInfo_def split: option.splits dest: find_in_set)

lemma extractRelationalRecord_lookup:
  "extractRelationalRecord reg row M k =
     (if k \<in> propertyKey ` set (getColumns reg M)
      then Some (prop_get row (rowKey (getTableName reg M) k)) else None)"
  by (simp add: extractRelationalRecord_def extractFields_lookup)

text \<open>
  Claim C9. For every row and every model, \<open>extractRelationalRecord\<close> returns an object
  whose keys are exactly the property keys of the model's declared fields; each holds the
  value the row carries under the field's namespaced key; and the result does not depend
  on any other column of the row: two rows that agree on the model's namespaced keys give
  the same object. The row of the test gives \<open>{id: 1, email: "a@b.com", age: 16}\<close> for
  \<open>User\<close> and \<open>{id: 2, title: "Spoon"}\<close> for \<open>Product\<close>.
\<close>

theorem extractRelationalRecord_declared_fields:
  "dom (extractRelationalRecord reg row M) = propertyKey ` set (getColumns reg M)
   \<and> (\<forall>c\<in>set (getColumns reg M).
         extractRelationalRecord reg row M (propertyKey c) = Some (rowValue reg M c row))
   \<and> ((\<forall>c\<in>set (getColumns reg M). rowValue reg M c row' = rowValue reg M c row)
        \<longrightarrow> extractRelationalRecord reg row' M = extractRelationalRecord reg row M)
   \<and> extractRelationalRecord testRegistry spoonRow User =
        [''id'' \<mapsto> Num 1, ''email'' \<mapsto> Str ''a@b.com'', ''age'' \<mapsto> Num 16]
   \<and> extractRelationalRecord testRegistry spoonRow Product =
        [''id'' \<mapsto> Num 2, ''title'' \<mapsto> Str ''Spoon'']"
proof (intro conjI)
  show "dom (extractRelationalRecord reg row M) = propertyKey ` set (getColumns reg M)"
    by (auto simp: extractRelationalRecord_lookup dom_def)
  show "\<forall>c\<in>set (getColumns reg M).
         extractRelationalRecord reg row M (propertyKey c) = Some (rowValue reg M c row)"
    by (simp add: extractRelationalRecord_lookup rowValue_def)
  show "(\<forall>c\<in>set (getColumns reg M). rowValue reg M c row' = rowValue reg M c row)
        \<longrightarrow> extractRelationalRecord reg row' M = extractRelationalRecord reg row M"
    by (auto simp: extractRelationalRecord_lookup rowValue_def fun_eq_iff)
  show "extractRelationalRecord testRegistry spoonRow User =
        [''id'' \<mapsto> Num 1, ''email'' \<mapsto> Str ''a@b.com'', ''age'' \<mapsto> Num 16]"
    by (simp add: extractRelationalRecord_def getTableName_def getColumns_def rowKey_def
        idColumn_def field_def spoonRow_def prop_get_def)
  show "extractRelationalRecord testRegistry spoonRow Product =
        [''id'' \<mapsto> Num 2, ''title'' \<mapsto> Str ''Spoon'']"
    by (simp add: extractRelationalRecord_def getTableName_def getColumns_def rowKey_def
        idColumn_def field_def spoonRow_def prop_get_def)
qed

theorem extractRelationalRecord_declared_fields_witness:
  "dom (extractRelationalRecord testRegistry spoonRow User) = {''id'', ''email'', ''age''}
   \<and> extractRelationalRecord testRegistry spoonRow User ''age'' = Some (Num 16)
   \<and> extractRelationalRecord testRegistry (spoonRow(''products__id'' \<mapsto> Null)) User
       = extractRelationalRecord testRegistry spoonRow User"
proof -
  note fact = extractRelationalRecord_declared_fields
    [of testRegistry spoonRow User "spoonRow(''products__id'' \<mapsto> Null)"]
  have cols: "getColumns testRegistry User =
      [idColumn, field ''email'' ''email'' String, field ''age'' ''my_age'' Number]"
    by (simp add: getColumns_def)
  have same: "\<forall>c\<in>set (getColumns testRegistry User).
      rowValue testRegistry User c (spoonRow(''products__id'' \<mapsto> Null))
        = rowValue testRegistry User c spoonRow"
    by (simp add: cols rowValue_def getTableName_def rowKey_def prop_get_def idColumn_def
        field_def)
  have "dom (extractRelationalRecord testRegistry spoonRow User)
      = propertyKey ` set (getColumns testRegistry User)"
    using fact[THEN conjunct1] .
  then have 1: "dom (extractRelationalRecord testRegistry spoonRow User)
      = {''id'', ''email'', ''age''}"
    by (auto simp: cols idColumn_def field_def)
  have "field ''age'' ''my_age'' Number \<in> set (getColumns testRegistry User)"
    by (simp add: cols)
  then have "extractRelationalRecord testRegistry spoonRow User
          (propertyKey (field ''age'' ''my_age'' Number))
      = Some (rowValue testRegistry User (field ''age'' ''my_age'' Number) spoonRow)"
    using fact[THEN conjunct2, THEN conjunct1] by blast
  then have 2: "extractRelationalRecord testRegistry spoonRow User ''age'' = Some (Num 16)"
    by (simp add: field_def rowValue_def getTableName_def rowKey_def prop_get_def spoonRow_def)
  have 3: "extractRelationalRecord testRegistry (spoonRow(''products__id'' \<mapsto> Null)) User
       = extractRelationalRecord testRegistry spoonRow User"
    using fact[THEN conjunct2, THEN conjunct2, THEN conjunct1] same by (rule mp)
  show ?thesis using 1 2 3 by blast
qed

section \<open>Aliases of the select and keys of the parser\<close>

lemma user_columns:
  "getColumns testRegistry User =
     [idColumn, field ''email'' ''email'' String, field ''age'' ''my_age'' Number]"
  by (simp add: getColumns_def)

text \<open>
  Claim C3. The claim asks that the alias under which \<open>find\<close> and \<open>findOne\<close> select a column
  be the key \<open>extractRelationalRecord\<close> reads for the field. For the field \<open>age\<close> of \<open>User\<close>,
  whose column name is \<open>my_age\<close>, the select aliases the column as \<open>users__my_age\<close> while the
  parser reads \<open>users__age\<close>: extracted from the row the select produces, the record holds
  \<open>undefined\<close> under \<open>age\<close>.
\<close>

theorem select_alias_differs_from_parsed_key:
  "map snd (selectColumns testRegistry User) = [''users__id'', ''users__email'', ''users__my_age'']
   \<and> map (\<lambda>c. rowKey (getTableName testRegistry User) (propertyKey c))
         (getColumns testRegistry User) = [''users__id'', ''users__email'', ''users__age'']
   \<and> extractRelationalRecord testRegistry foundRow User
       = [''id'' \<mapsto> Num 1, ''email'' \<mapsto> Str ''a@b.com'', ''age'' \<mapsto> Undefined]"
  by (simp add: selectColumns_def extractRelationalRecord_def getTableName_def user_columns
      rowKey_def idColumn_def field_def foundRow_def prop_get_def)

section \<open>Grouping of rows\<close>

lemma appendTo_other:
  "k \<notin> fst ` set gs \<Longrightarrow> map (\<lambda>(k', rs). (k', if k' = k then rs @ [r] else rs)) gs = gs"
  by (induction gs) force+

lemma addToGroup_in:
  "k \<in> fst ` set gs \<Longrightarrow> distinct (map fst gs) \<Longrightarrow>
   addToGroup k r gs = map (\<lambda>(k', rs). (k', if k' = k then rs @ [r] else rs)) gs"
proof (induction gs)
  case Nil
  then show ?case by simp
next
  case (Cons g gs)
  obtain k' rs where g: "g = (k', rs)" by (cases g)
  show ?case
  proof (cases "k = k'")
    case True
    then have "k \<notin> fst ` set gs" using Cons.prems(2) g by auto
    then show ?thesis using True g by (simp add: appendTo_other)
  next
    case False
    then have "k \<in> fst ` set gs" using Cons.prems(1) g by auto
    then show ?thesis using False g Cons.IH Cons.prems(2) by simp
  qed
qed

lemma addToGroup_notin:
  "k \<notin> fst ` set gs \<Longrightarrow> addToGroup k r gs = gs @ [(k, [r])]"
  by (induction gs) auto

lemma groupOf_Cons:
  "groupOf key (r # rows) k = (if key r = k then r # groupOf key rows k else groupOf key rows k)"
  by (simp add: groupOf_def)

lemma groupOf_Nil: "groupOf key [] k = []"
  by (simp add: groupOf_def)

lemma groupRows_acc:
  "distinct (map fst acc) \<Longrightarrow>
   groupRows key rows acc =
     map (\<lambda>(k, rs). (k, rs @ groupOf key rows k)) acc @
     map (\<lambda>k. (k, groupOf key rows k))
       (filter (\<lambda>k. k \<notin> fst ` set acc) (firstSeen (map key rows)))"
proof (induction rows arbitrary: acc)
  case Nil
  then show ?case by (simp add: groupOf_Nil)
next
  case (Cons r rest)
  let ?k = "key r"
  let ?new = "\<lambda>ac. filter (\<lambda>k. k \<notin> fst ` set ac) (firstSeen (map key rest))"
  show ?case
  proof (cases "?k \<in> fst ` set acc")
    case True
    let ?acc' = "map (\<lambda>(k', rs). (k', if k' = ?k then rs @ [r] else rs)) acc"
    have acc': "addToGroup ?k r acc = ?acc'"
      using True Cons.prems by (rule addToGroup_in)
    have keys: "map fst ?acc' = map fst acc"
      by (induction acc) auto
    have s: "fst ` set ?acc' = fst ` set acc"
      using keys by (metis list.set_map)
    have d: "distinct (map fst ?acc')"
      unfolding keys by (rule Cons.prems)
    have old: "map (\<lambda>(k, rs). (k, rs @ groupOf key rest k)) ?acc'
             = map (\<lambda>(k, rs). (k, rs @ groupOf key (r # rest) k)) acc"
      by (induction acc) (auto simp: groupOf_Cons)
    have f: "filter (\<lambda>k. k \<notin> fst ` set acc) (firstSeen (map key (r # rest))) = ?new acc"
    proof -
      have "filter (\<lambda>k. k \<notin> fst ` set acc) (filter (\<lambda>y. y \<noteq> ?k) xs)
          = filter (\<lambda>k. k \<notin> fst ` set acc) xs" for xs
        using True by (induction xs) auto
      then show ?thesis using True by simp
    qed
    have m: "map (\<lambda>k. (k, groupOf key (r # rest) k)) (?new acc)
           = map (\<lambda>k. (k, groupOf key rest k)) (?new acc)"
      using True by (intro map_cong refl) (auto simp: groupOf_Cons)
    have "groupRows key (r # rest) acc = groupRows key rest ?acc'"
      by (simp add: acc')
    also have "\<dots> = map (\<lambda>(k, rs). (k, rs @ groupOf key rest k)) ?acc' @
        map (\<lambda>k. (k, groupOf key rest k)) (?new ?acc')"
      by (rule Cons.IH[OF d])
    also have "\<dots> = map (\<lambda>(k, rs). (k, rs @ groupOf key (r # rest) k)) acc @
        map (\<lambda>k. (k, groupOf key (r # rest) k)) (?new acc)"
      by (simp only: old s m)
    finally show ?thesis by (simp only: f)
  next
    case False
    let ?acc' = "acc @ [(?k, [r])]"
    have acc': "addToGroup ?k r acc = ?acc'"
      using False by (rule addToGroup_notin)
    have d: "distinct (map fst ?acc')"
      using False Cons.prems by simp
    have old: "map (\<lambda>(k, rs). (k, rs @ groupOf key rest k)) acc
             = map (\<lambda>(k, rs). (k, rs @ groupOf key (r # rest) k)) acc"
      using False by (intro map_cong refl) (force simp: groupOf_Cons)
    have f: "filter (\<lambda>k. k \<notin> fst ` set acc) (firstSeen (map key (r # rest)))
           = ?k # ?new ?acc'"
    proof -
      have "filter (\<lambda>k. k \<notin> fst ` set acc) (filter (\<lambda>y. y \<noteq> ?k) xs)
          = filter (\<lambda>k. k \<notin> fst ` set ?acc') xs" for xs
        by (induction xs) auto
      then show ?thesis using False by simp
    qed
    have m: "map (\<lambda>k. (k, groupOf key (r # rest) k)) (?new ?acc')
           = map (\<lambda>k. (k, groupOf key rest k)) (?new ?acc')"
      by (intro map_cong refl) (auto simp: groupOf_Cons)
    have "groupRows key (r # rest) acc = groupRows key rest ?acc'"
      by (simp add: acc')
    also have "\<dots> = map (\<lambda>(k, rs). (k, rs @ groupOf key rest k)) ?acc' @
        map (\<lambda>k. (k, groupOf key rest k)) (?new ?acc')"
      by (rule Cons.IH[OF d])
    also have "\<dots> = map (\<lambda>(k, rs). (k, rs @ groupOf key (r # rest) k)) acc @
        (?k, groupOf key (r # rest) ?k) #
        map (\<lambda>k. (k, groupOf key (r # rest) k)) (?new ?acc')"
      by (simp add: old m groupOf_Cons)
    finally show ?thesis unfolding f by simp
  qed
qed

lemma groupRows_spec:
  "groupRows key rows [] = map (\<lambda>k. (k, groupOf key rows k)) (firstSeen (map key rows))"
  using groupRows_acc[of "[]" key rows] by simp

lemma set_firstSeen: "set (firstSeen xs) = set xs"
  by (induction xs) auto

lemma distinct_firstSeen: "distinct (firstSeen xs)"
  by (induction xs) (auto simp: set_firstSeen)

lemma groupOf_nonempty: "k \<in> set (map key rows) \<Longrightarrow> groupOf key rows k \<noteq> []"
  by (induction rows) (auto simp: groupOf_Cons)

section \<open>Relations of a group\<close>

lemma attachRelations_ok:
  assumes "\<forall>r\<in>set rels. \<exists>c. getPrimaryKeyInfo reg (getModel r) = Inr c"
  shows "\<exists>ob. attachRelations reg rels rows root = Inr ob
          \<and> (\<forall>k. k \<notin> rel_propertyKey ` set rels \<longrightarrow> ob k = root k)
          \<and> (distinct (map rel_propertyKey rels) \<longrightarrow>
               (\<forall>r\<in>set rels. \<forall>c. getPrimaryKeyInfo reg (getModel r) = Inr c \<longrightarrow>
                  ob (rel_propertyKey r) = Some (relationValue reg r c rows)))"
  using assms
proof (induction rels arbitrary: root)
  case Nil
  then show ?case by simp
next
  case (Cons r rs)
  from Cons.prems obtain c0 where c0: "getPrimaryKeyInfo reg (getModel r) = Inr c0" by auto
  let ?rec = "root(rel_propertyKey r \<mapsto> relationValue reg r c0 rows)"
  from Cons.prems have "\<forall>r\<in>set rs. \<exists>c. getPrimaryKeyInfo reg (getModel r) = Inr c" by simp
  from Cons.IH[OF this, of ?rec] obtain ob where
    ob: "attachRelations reg rs rows ?rec = Inr ob"
    and other: "\<forall>k. k \<notin> rel_propertyKey ` set rs \<longrightarrow> ob k = ?rec k"
    and rel: "distinct (map rel_propertyKey rs) \<longrightarrow>
               (\<forall>r\<in>set rs. \<forall>c. getPrimaryKeyInfo reg (getModel r) = Inr c \<longrightarrow>
                  ob (rel_propertyKey r) = Some (relationValue reg r c rows))"
    by blast
  have 1: "attachRelations reg (r # rs) rows root = Inr ob"
    using c0 ob by simp
  have 2: "\<forall>k. k \<notin> rel_propertyKey ` set (r # rs) \<longrightarrow> ob k = root k"
    using other by simp
  have 3: "distinct (map rel_propertyKey (r # rs)) \<longrightarrow>
               (\<forall>r'\<in>set (r # rs). \<forall>c. getPrimaryKeyInfo reg (getModel r') = Inr c \<longrightarrow>
                  ob (rel_propertyKey r') = Some (relationValue reg r' c rows))"
  proof (intro impI ballI allI)
    fix r' c
    assume d: "distinct (map rel_propertyKey (r # rs))"
      and r': "r' \<in> set (r # rs)" and c: "getPrimaryKeyInfo reg (getModel r') = Inr c"
    show "ob (rel_propertyKey r') = Some (relationValue reg r' c rows)"
    proof (cases "r' \<in> set rs")
      case True
      then show ?thesis using rel d c by simp
    next
      case False
      then have eq: "r' = r" using r' by simp
      then have "rel_propertyKey r \<notin> rel_propertyKey ` set rs" using d by simp
      then have "ob (rel_propertyKey r) = ?rec (rel_propertyKey r)" using other by blast
      then show ?thesis using eq c c0 by simp
    qed
  qed
  show ?case using 1 2 3 by blast
qed

lemma mapGroups_ok:
  assumes "\<forall>r\<in>set rels. \<exists>c. getPrimaryKeyInfo reg (getModel r) = Inr c"
    and "\<forall>g\<in>set gs. snd g \<noteq> []"
  shows "\<exists>obs. mapGroups reg M rels gs = Inr obs
          \<and> list_all2 (\<lambda>g ob. attachRelations reg rels (snd g)
                 (extractRelationalRecord reg (hd (snd g)) M) = Inr ob) gs obs"
  using assms(2)
proof (induction gs)
  case Nil
  then show ?case by simp
next
  case (Cons g gs)
  obtain k rows where g: "g = (k, rows)" by (cases g)
  from Cons.prems g obtain first rest where rows: "rows = first # rest"
    by (cases rows) auto
  from attachRelations_ok[OF assms(1), of rows "extractRelationalRecord reg first M"]
  obtain ob where ob: "attachRelations reg rels rows (extractRelationalRecord reg first M) = Inr ob"
    by blast
  from Cons.IH Cons.prems obtain obs where obs: "mapGroups reg M rels gs = Inr obs"
    and all: "list_all2 (\<lambda>g ob. attachRelations reg rels (snd g)
                 (extractRelationalRecord reg (hd (snd g)) M) = Inr ob) gs obs"
    by auto
  have "mapGroups reg M rels (g # gs) = Inr (ob # obs)"
    using g rows ob obs by simp
  moreover have "list_all2 (\<lambda>g ob. attachRelations reg rels (snd g)
                 (extractRelationalRecord reg (hd (snd g)) M) = Inr ob) (g # gs) (ob # obs)"
    using all ob g rows by simp
  ultimately show ?case by blast
qed

lemma mapRelationalResult_shape:
  assumes pk: "getPrimaryKeyInfo reg M = Inr pk"
    and targets: "\<forall>r\<in>set (getRelations reg M (Some includes)).
                    \<exists>c. getPrimaryKeyInfo reg (getModel r) = Inr c"
  shows "\<exists>objs. mapRelationalResult reg M includes rows = Inr objs
     \<and> length objs = length (firstSeen (map (rowValue reg M pk) rows))
     \<and> (\<forall>i<length objs.
          groupOf (rowValue reg M pk) rows (firstSeen (map (rowValue reg M pk) rows) ! i) \<noteq> []
        \<and> attachRelations reg (getRelations reg M (Some includes))
            (groupOf (rowValue reg M pk) rows (firstSeen (map (rowValue reg M pk) rows) ! i))
            (extractRelationalRecord reg
               (hd (groupOf (rowValue reg M pk) rows
                      (firstSeen (map (rowValue reg M pk) rows) ! i))) M)
          = Inr (objs ! i))"
proof -
  let ?key = "rowValue reg M pk"
  let ?ks = "firstSeen (map ?key rows)"
  let ?gs = "map (\<lambda>k. (k, groupOf ?key rows k)) ?ks"
  have ne: "\<forall>g\<in>set ?gs. snd g \<noteq> []"
    using groupOf_nonempty[of _ ?key rows] by (auto simp: set_firstSeen)
  from mapGroups_ok[OF targets ne, of M] obtain objs where
    objs: "mapGroups reg M (getRelations reg M (Some includes)) ?gs = Inr objs"
    and all: "list_all2 (\<lambda>g ob. attachRelations reg (getRelations reg M (Some includes)) (snd g)
                 (extractRelationalRecord reg (hd (snd g)) M) = Inr ob) ?gs objs"
    by blast
  have len: "length objs = length ?ks"
    using all by (auto dest: list_all2_lengthD)
  have res: "mapRelationalResult reg M includes rows = Inr objs"
    using pk objs by (simp add: mapRelationalResult_def groupRows_spec)
  have each: "\<forall>i<length objs.
        groupOf ?key rows (?ks ! i) \<noteq> []
      \<and> attachRelations reg (getRelations reg M (Some includes)) (groupOf ?key rows (?ks ! i))
          (extractRelationalRecord reg (hd (groupOf ?key rows (?ks ! i))) M) = Inr (objs ! i)"
  proof (intro allI impI)
    fix i assume i: "i < length objs"
    then have i': "i < length ?gs" using len by simp
    have "?gs ! i = (?ks ! i, groupOf ?key rows (?ks ! i))"
      using i len by simp
    moreover have "attachRelations reg (getRelations reg M (Some includes)) (snd (?gs ! i))
                 (extractRelationalRecord reg (hd (snd (?gs ! i))) M) = Inr (objs ! i)"
      using list_all2_nthD[OF all i'] .
    moreover have "snd (?gs ! i) \<noteq> []"
      using ne i' nth_mem by blast
    ultimately show "groupOf ?key rows (?ks ! i) \<noteq> []
      \<and> attachRelations reg (getRelations reg M (Some includes)) (groupOf ?key rows (?ks ! i))
          (extractRelationalRecord reg (hd (groupOf ?key rows (?ks ! i))) M) = Inr (objs ! i)"
      by simp
  qed
  show ?thesis using res len each by blast
qed

lemma user_pk: "getPrimaryKeyInfo testRegistry User = Inr idColumn"
  by (simp add: getPrimaryKeyInfo_def getColumns_def idColumn_def)

lemma product_pk: "getPrimaryKeyInfo testRegistry Product = Inr idColumn"
  by (simp add: getPrimaryKeyInfo_def getColumns_def idColumn_def)

lemma includes_products:
  "getRelations testRegistry User (Some [''products''])
     = [\<lparr>rel_propertyKey = ''products'', rel_type = HasMany, getModel = Product,
          targetColumn = ''user_id''\<rparr>]"
  by (simp add: getRelations_def)

lemma includes_user:
  "getRelations testRegistry Product (Some [''user''])
     = [\<lparr>rel_propertyKey = ''user'', rel_type = BelongsTo, getModel = User,
          targetColumn = ''user_id''\<rparr>]"
  by (simp add: getRelations_def)

lemma users_keys:
  "map (rowValue testRegistry User idColumn) usersWithProducts = [Num 1, Num 1, Num 2, Num 3]"
  by (simp add: usersWithProducts_def joinedRow_def rowValue_def getTableName_def rowKey_def
      idColumn_def prop_get_def)

lemma products_keys:
  "map (rowValue testRegistry Product idColumn) productsWithUser = [Num 1, Num 2, Num 3]"
  by (simp add: productsWithUser_def joinedRow_def rowValue_def getTableName_def rowKey_def
      idColumn_def prop_get_def)

text \<open>
  Claim C1. For every root model with a primary key, every included HasMany relation and
  every sequence of rows, \<open>mapRelationalResult\<close> returns one object per distinct value of
  the root primary key, in the order in which the values first appear. The object of the
  \<open>i\<close>-th value carries, outside the relation keys, the root record extracted from the
  first row with that value, and under the relation's key the array of the related
  records of exactly the rows with that value whose related primary key is not null, in
  row order and without deduplication; so a group whose rows all have a null related key
  yields the empty array, never \<open>null\<close>. The included relations have distinct property keys
  and their target models a primary key.
\<close>

theorem mapRelationalResult_hasMany:
  assumes pk: "getPrimaryKeyInfo reg M = Inr pk"
    and targets: "\<forall>r'\<in>set (getRelations reg M (Some includes)).
                    \<exists>c. getPrimaryKeyInfo reg (getModel r') = Inr c"
    and keys: "distinct (map rel_propertyKey (getRelations reg M (Some includes)))"
    and r: "r \<in> set (getRelations reg M (Some includes))"
    and many: "rel_type r = HasMany"
    and rpk: "getPrimaryKeyInfo reg (getModel r) = Inr rpk"
  shows "\<exists>objs. mapRelationalResult reg M includes rows = Inr objs
     \<and> length objs = length (firstSeen (map (rowValue reg M pk) rows))
     \<and> (\<forall>i<length objs.
          (\<forall>k. k \<notin> rel_propertyKey ` set (getRelations reg M (Some includes)) \<longrightarrow>
             (objs ! i) k =
               extractRelationalRecord reg
                 (hd (groupOf (rowValue reg M pk) rows
                        (firstSeen (map (rowValue reg M pk) rows) ! i))) M k)
        \<and> (objs ! i) (rel_propertyKey r) =
            Some (Arr (map (\<lambda>row. Obj (extractRelationalRecord reg row (getModel r)))
              (filter (\<lambda>row. rowValue reg (getModel r) rpk row \<noteq> Null)
                 (groupOf (rowValue reg M pk) rows
                    (firstSeen (map (rowValue reg M pk) rows) ! i))))))"
proof -
  let ?rels = "getRelations reg M (Some includes)"
  let ?ks = "firstSeen (map (rowValue reg M pk) rows)"
  let ?group = "\<lambda>i. groupOf (rowValue reg M pk) rows (?ks ! i)"
  from mapRelationalResult_shape[OF pk targets, of rows] obtain objs where
    res: "mapRelationalResult reg M includes rows = Inr objs"
    and len: "length objs = length ?ks"
    and each: "\<forall>i<length objs. ?group i \<noteq> []
        \<and> attachRelations reg ?rels (?group i)
             (extractRelationalRecord reg (hd (?group i)) M) = Inr (objs ! i)"
    by blast
  have "\<forall>i<length objs.
          (\<forall>k. k \<notin> rel_propertyKey ` set ?rels \<longrightarrow>
             (objs ! i) k = extractRelationalRecord reg (hd (?group i)) M k)
        \<and> (objs ! i) (rel_propertyKey r) =
            Some (Arr (map (\<lambda>row. Obj (extractRelationalRecord reg row (getModel r)))
              (filter (\<lambda>row. rowValue reg (getModel r) rpk row \<noteq> Null) (?group i))))"
  proof (intro allI impI)
    fix i assume i: "i < length objs"
    from attachRelations_ok[OF targets, of "?group i" "extractRelationalRecord reg (hd (?group i)) M"]
    obtain ob where ob: "attachRelations reg ?rels (?group i)
             (extractRelationalRecord reg (hd (?group i)) M) = Inr ob"
      and other: "\<forall>k. k \<notin> rel_propertyKey ` set ?rels \<longrightarrow>
                    ob k = extractRelationalRecord reg (hd (?group i)) M k"
      and rel: "distinct (map rel_propertyKey ?rels) \<longrightarrow>
               (\<forall>r\<in>set ?rels. \<forall>c. getPrimaryKeyInfo reg (getModel r) = Inr c \<longrightarrow>
                  ob (rel_propertyKey r) = Some (relationValue reg r c (?group i)))"
      by blast
    have eq: "objs ! i = ob" using each i ob by simp
    have "ob (rel_propertyKey r) = Some (relationValue reg r rpk (?group i))"
      using rel keys r rpk by blast
    then have "ob (rel_propertyKey r) =
            Some (Arr (map (\<lambda>row. Obj (extractRelationalRecord reg row (getModel r)))
              (filter (\<lambda>row. rowValue reg (getModel r) rpk row \<noteq> Null) (?group i))))"
      using many by (simp add: relationValue_def)
    then show "(\<forall>k. k \<notin> rel_propertyKey ` set ?rels \<longrightarrow>
             (objs ! i) k = extractRelationalRecord reg (hd (?group i)) M k)
        \<and> (objs ! i) (rel_propertyKey r) =
            Some (Arr (map (\<lambda>row. Obj (extractRelationalRecord reg row (getModel r)))
              (filter (\<lambda>row. rowValue reg (getModel r) rpk row \<noteq> Null) (?group i))))"
      using other eq by simp
  qed
  then show ?thesis using res len by blast
qed

theorem mapRelationalResult_hasMany_witness:
  "\<exists>objs. mapRelationalResult testRegistry User [''products''] usersWithProducts = Inr objs
     \<and> length objs = 3
     \<and> (objs ! 0) ''products''
          = Some (Arr [Obj [''id'' \<mapsto> Num 1, ''title'' \<mapsto> Str ''Spoon''],
                       Obj [''id'' \<mapsto> Num 2, ''title'' \<mapsto> Str ''Rice'']])
     \<and> (objs ! 1) ''products'' = Some (Arr [Obj [''id'' \<mapsto> Num 3, ''title'' \<mapsto> Str ''Table'']])
     \<and> (objs ! 2) ''products'' = Some (Arr [])
     \<and> (objs ! 2) ''email'' = Some (Str ''c@d.com'')"
proof -
  let ?r = "\<lparr>rel_propertyKey = ''products'', rel_type = HasMany, getModel = Product,
          targetColumn = ''user_id''\<rparr>"
  have targets: "\<forall>r'\<in>set (getRelations testRegistry User (Some [''products''])).
      \<exists>c. getPrimaryKeyInfo testRegistry (getModel r') = Inr c"
    by (simp add: includes_products product_pk)
  have keys: "distinct (map rel_propertyKey (getRelations testRegistry User (Some [''products''])))"
    by (simp add: includes_products)
  have r: "?r \<in> set (getRelations testRegistry User (Some [''products'']))"
    by (simp add: includes_products)
  have many: "rel_type ?r = HasMany" by simp
  have rpk: "getPrimaryKeyInfo testRegistry (getModel ?r) = Inr idColumn"
    by (simp add: product_pk)
  from mapRelationalResult_hasMany[OF user_pk targets keys r many rpk, of usersWithProducts]
  obtain objs where
    res: "mapRelationalResult testRegistry User [''products''] usersWithProducts = Inr objs"
    and len: "length objs = length (firstSeen [Num 1, Num 1, Num 2, Num 3])"
    and each: "\<forall>i<length objs.
          (\<forall>k. k \<notin> rel_propertyKey ` set (getRelations testRegistry User (Some [''products''])) \<longrightarrow>
             (objs ! i) k =
               extractRelationalRecord testRegistry
                 (hd (groupOf (rowValue testRegistry User idColumn) usersWithProducts
                        (firstSeen [Num 1, Num 1, Num 2, Num 3] ! i))) User k)
        \<and> (objs ! i) (rel_propertyKey ?r) =
            Some (Arr (map (\<lambda>row. Obj (extractRelationalRecord testRegistry row (getModel ?r)))
              (filter (\<lambda>row. rowValue testRegistry (getModel ?r) idColumn row \<noteq> Null)
                 (groupOf (rowValue testRegistry User idColumn) usersWithProducts
                    (firstSeen [Num 1, Num 1, Num 2, Num 3] ! i)))))"
    unfolding users_keys by blast
  have fs: "firstSeen [Num 1, Num 1, Num 2, Num 3] = [Num 1, Num 2, Num (3::int)]"
    by simp
  have len3: "length objs = 3" using len fs by simp
  have ev: "rowValue testRegistry User idColumn (joinedRow u e g t p) = u"
      "rowValue testRegistry Product idColumn (joinedRow u e g t p) = p"
      "extractRelationalRecord testRegistry (joinedRow u e g t p) Product
         = [''id'' \<mapsto> p, ''title'' \<mapsto> t]"
      "extractRelationalRecord testRegistry (joinedRow u e g t p) User ''email'' = Some e"
    for u e g t p
    by (simp_all add: joinedRow_def rowValue_def getTableName_def rowKey_def idColumn_def
        field_def prop_get_def extractRelationalRecord_def getColumns_def)
  have g0: "(objs ! 0) ''products''
          = Some (Arr [Obj [''id'' \<mapsto> Num 1, ''title'' \<mapsto> Str ''Spoon''],
                       Obj [''id'' \<mapsto> Num 2, ''title'' \<mapsto> Str ''Rice'']])"
    using each len3 by (simp add: fs groupOf_def usersWithProducts_def ev)
  have g1: "(objs ! 1) ''products'' = Some (Arr [Obj [''id'' \<mapsto> Num 3, ''title'' \<mapsto> Str ''Table'']])"
    using each len3 by (simp add: fs groupOf_def usersWithProducts_def ev)
  have g2: "(objs ! 2) ''products'' = Some (Arr [])"
    using each len3 by (simp add: fs groupOf_def usersWithProducts_def ev)
  have "''email'' \<notin> rel_propertyKey ` set (getRelations testRegistry User (Some [''products'']))"
    by (simp add: includes_products)
  then have g3: "(objs ! 2) ''email'' = Some (Str ''c@d.com'')"
    using each len3 by (simp add: fs groupOf_def usersWithProducts_def ev)
  show ?thesis using res len3 g0 g1 g2 g3 by blast
qed

text \<open>
  The BelongsTo relation of a group: \<open>null\<close> when the related primary key is null in the
  group's first row, and the related record of that row otherwise. The rows of the test
  give the user of the first two products and \<open>null\<close> for the third.
\<close>

lemma mapRelationalResult_belongsTo:
  assumes pk: "getPrimaryKeyInfo reg M = Inr pk"
    and targets: "\<forall>r'\<in>set (getRelations reg M (Some includes)).
                    \<exists>c. getPrimaryKeyInfo reg (getModel r') = Inr c"
    and keys: "distinct (map rel_propertyKey (getRelations reg M (Some includes)))"
    and r: "r \<in> set (getRelations reg M (Some includes))"
    and one: "rel_type r = BelongsTo"
    and rpk: "getPrimaryKeyInfo reg (getModel r) = Inr rpk"
  shows "\<exists>objs. mapRelationalResult reg M includes rows = Inr objs
     \<and> length objs = length (firstSeen (map (rowValue reg M pk) rows))
     \<and> (\<forall>i<length objs.
          (objs ! i) (rel_propertyKey r) =
            Some (if rowValue reg (getModel r) rpk
                       (hd (groupOf (rowValue reg M pk) rows
                              (firstSeen (map (rowValue reg M pk) rows) ! i))) = Null
                  then Null
                  else Obj (extractRelationalRecord reg
                         (hd (groupOf (rowValue reg M pk) rows
                                (firstSeen (map (rowValue reg M pk) rows) ! i)))
                         (getModel r))))"
proof -
  let ?rels = "getRelations reg M (Some includes)"
  let ?ks = "firstSeen (map (rowValue reg M pk) rows)"
  let ?group = "\<lambda>i. groupOf (rowValue reg M pk) rows (?ks ! i)"
  from mapRelationalResult_shape[OF pk targets, of rows] obtain objs where
    res: "mapRelationalResult reg M includes rows = Inr objs"
    and len: "length objs = length ?ks"
    and each: "\<forall>i<length objs. ?group i \<noteq> []
        \<and> attachRelations reg ?rels (?group i)
             (extractRelationalRecord reg (hd (?group i)) M) = Inr (objs ! i)"
    by blast
  have related: "prop_get (extractRelationalRecord reg row (getModel r)) (propertyKey rpk)
      = rowValue reg (getModel r) rpk row" for row
    using getPrimaryKeyInfo_column[OF rpk]
    by (simp add: extractRelationalRecord_lookup prop_get_def rowValue_def)
  have "\<forall>i<length objs.
          (objs ! i) (rel_propertyKey r) =
            Some (if rowValue reg (getModel r) rpk (hd (?group i)) = Null then Null
                  else Obj (extractRelationalRecord reg (hd (?group i)) (getModel r)))"
  proof (intro allI impI)
    fix i assume i: "i < length objs"
    from attachRelations_ok[OF targets, of "?group i" "extractRelationalRecord reg (hd (?group i)) M"]
    obtain ob where ob: "attachRelations reg ?rels (?group i)
             (extractRelationalRecord reg (hd (?group i)) M) = Inr ob"
      and rel: "distinct (map rel_propertyKey ?rels) \<longrightarrow>
               (\<forall>r\<in>set ?rels. \<forall>c. getPrimaryKeyInfo reg (getModel r) = Inr c \<longrightarrow>
                  ob (rel_propertyKey r) = Some (relationValue reg r c (?group i)))"
      by blast
    have eq: "objs ! i = ob" using each i ob by simp
    from each i obtain first rest where g: "?group i = first # rest"
      by (cases "?group i") auto
    have "ob (rel_propertyKey r) = Some (relationValue reg r rpk (?group i))"
      using rel keys r rpk by blast
    then show "(objs ! i) (rel_propertyKey r) =
            Some (if rowValue reg (getModel r) rpk (hd (?group i)) = Null then Null
                  else Obj (extractRelationalRecord reg (hd (?group i)) (getModel r)))"
      using one eq g by (simp add: relationValue_def related)
  qed
  then show ?thesis using res len by blast
qed

lemma mapRelationalResult_belongsTo_example:
  "\<exists>objs. mapRelationalResult testRegistry Product [''user''] productsWithUser = Inr objs
     \<and> length objs = 3
     \<and> (objs ! 0) ''user''
          = Some (Obj [''id'' \<mapsto> Num 1, ''email'' \<mapsto> Str ''a@b.com'', ''age'' \<mapsto> Num 16])
     \<and> (objs ! 1) ''user''
          = Some (Obj [''id'' \<mapsto> Num 1, ''email'' \<mapsto> Str ''a@b.com'', ''age'' \<mapsto> Num 16])
     \<and> (objs ! 2) ''user'' = Some Null"
proof -
  let ?r = "\<lparr>rel_propertyKey = ''user'', rel_type = BelongsTo, getModel = User,
          targetColumn = ''user_id''\<rparr>"
  have targets: "\<forall>r'\<in>set (getRelations testRegistry Product (Some [''user''])).
      \<exists>c. getPrimaryKeyInfo testRegistry (getModel r') = Inr c"
    by (simp add: includes_user user_pk)
  have keys: "distinct (map rel_propertyKey (getRelations testRegistry Product (Some [''user''])))"
    by (simp add: includes_user)
  have r: "?r \<in> set (getRelations testRegistry Product (Some [''user'']))"
    by (simp add: includes_user)
  have one: "rel_type ?r = BelongsTo" by simp
  have rpk: "getPrimaryKeyInfo testRegistry (getModel ?r) = Inr idColumn"
    by (simp add: user_pk)
  from mapRelationalResult_belongsTo[OF product_pk targets keys r one rpk, of productsWithUser]
  obtain objs where
    res: "mapRelationalResult testRegistry Product [''user''] productsWithUser = Inr objs"
    and len: "length objs = length (firstSeen [Num 1, Num 2, Num 3])"
    and each: "\<forall>i<length objs.
          (objs ! i) (rel_propertyKey ?r) =
            Some (if rowValue testRegistry (getModel ?r) idColumn
                       (hd (groupOf (rowValue testRegistry Product idColumn) productsWithUser
                              (firstSeen [Num 1, Num 2, Num 3] ! i))) = Null
                  then Null
                  else Obj (extractRelationalRecord testRegistry
                         (hd (groupOf (rowValue testRegistry Product idColumn) productsWithUser
                                (firstSeen [Num 1, Num 2, Num 3] ! i)))
                         (getModel ?r)))"
    unfolding products_keys by blast
  have fs: "firstSeen [Num 1, Num 2, Num 3] = [Num 1, Num 2, Num (3::int)]"
    by simp
  have len3: "length objs = 3" using len fs by simp
  have ev: "rowValue testRegistry User idColumn (joinedRow u e g t p) = u"
      "rowValue testRegistry Product idColumn (joinedRow u e g t p) = p"
      "extractRelationalRecord testRegistry (joinedRow u e g t p) User
         = [''id'' \<mapsto> u, ''email'' \<mapsto> e, ''age'' \<mapsto> g]"
    for u e g t p
    by (simp_all add: joinedRow_def rowValue_def getTableName_def rowKey_def idColumn_def
        field_def prop_get_def extractRelationalRecord_def getColumns_def)
  have g0: "(objs ! 0) ''user''
          = Some (Obj [''id'' \<mapsto> Num 1, ''email'' \<mapsto> Str ''a@b.com'', ''age'' \<mapsto> Num 16])"
    using each len3 by (simp add: fs groupOf_def productsWithUser_def ev)
  have g1: "(objs ! 1) ''user''
          = Some (Obj [''id'' \<mapsto> Num 1, ''email'' \<mapsto> Str ''a@b.com'', ''age'' \<mapsto> Num 16])"
    using each len3 by (simp add: fs groupOf_def productsWithUser_def ev)
  have g2: "(objs ! 2) ''user'' = Some Null"
    using each len3 by (simp add: fs groupOf_def productsWithUser_def ev)
  show ?thesis using res len3 g0 g1 g2 by blast
qed

section \<open>Materialised column values\<close>

lemma columnValue_defined: "columnValue f c \<noteq> Undefined"
  by (simp add: columnValue_def)

lemma collectValues_Inr:
  "\<forall>c\<in>set cs. \<not> isEmptyField f c \<Longrightarrow>
   collectValues f cs d = Inr (fold (\<lambda>c m. m(name c \<mapsto> columnValue f c)) cs d)"
  by (induction cs arbitrary: d) (auto simp: isEmptyField_def columnValue_def)

lemma collectValues_Inl:
  "c \<in> set cs \<Longrightarrow> isEmptyField f c \<Longrightarrow> \<exists>e. collectValues f cs d = Inl e"
  by (induction cs arbitrary: d) (auto simp: isEmptyField_def)

lemma collectValues_ok_iff:
  "(\<exists>m. collectValues f cs d = Inr m) \<longleftrightarrow> (\<forall>c\<in>set cs. \<not> isEmptyField f c)"
proof
  assume "\<exists>m. collectValues f cs d = Inr m"
  then show "\<forall>c\<in>set cs. \<not> isEmptyField f c"
    using collectValues_Inl[of _ cs f d] by fastforce
next
  assume "\<forall>c\<in>set cs. \<not> isEmptyField f c"
  then show "\<exists>m. collectValues f cs d = Inr m"
    using collectValues_Inr[of cs f d] by blast
qed

lemma fold_columns_lookup:
  "fold (\<lambda>c m. m(name c \<mapsto> g c)) cs d k =
     (case find (\<lambda>c. name c = k) (rev cs) of None \<Rightarrow> d k | Some c \<Rightarrow> Some (g c))"
  by (induction cs rule: rev_induct) auto

lemma find_Some_D: "find P xs = Some x \<Longrightarrow> P x \<and> x \<in> set xs"
  by (induction xs) (auto split: if_splits)

lemma getValues_all_ok_iff:
  "(\<exists>d. getValues reg m None = Inr d)
     \<longleftrightarrow> (\<forall>c\<in>set (getColumns reg (cls m)). \<not> isEmptyField (props m) c)"
  by (simp add: getValues_def collectValues_ok_iff)

lemma getValues_all_Inr:
  "\<forall>c\<in>set (getColumns reg (cls m)). \<not> isEmptyField (props m) c \<Longrightarrow>
   getValues reg m None =
     Inr (fold (\<lambda>c d. d(name c \<mapsto> columnValue (props m) c)) (getColumns reg (cls m)) Map.empty)"
  by (simp add: getValues_def collectValues_Inr)

lemma isEmptyField_update:
  "v \<noteq> Undefined \<Longrightarrow> isEmptyField (f(k := v)) c \<Longrightarrow> isEmptyField f c"
  by (auto simp: isEmptyField_def split: if_splits)

section \<open>Arithmetic on safe integers\<close>

lemma bitLength_le: "n < 2 ^ k \<Longrightarrow> bitLength n \<le> k"
proof (induction k arbitrary: n)
  case 0
  then show ?case by (simp add: bitLength.simps)
next
  case (Suc k)
  show ?case
  proof (cases "n = 0")
    case True
    then show ?thesis by (simp add: bitLength.simps)
  next
    case False
    have "n div 2 < 2 ^ k" using Suc.prems by simp
    then have "bitLength (n div 2) \<le> k" by (rule Suc.IH)
    then show ?thesis using False by (subst bitLength.simps) simp
  qed
qed

lemma roundDouble_exact:
  assumes "\<bar>x\<bar> \<le> 2 ^ 53"
  shows "roundDouble x = x"
proof -
  let ?n = "nat \<bar>x\<bar>"
  let ?q = "2 ^ (bitLength ?n - 53) :: nat"
  have n: "?n \<le> 2 ^ 53"
  proof -
    have "\<bar>x\<bar> \<le> int (2 ^ 53)" using assms by simp
    then show ?thesis by (simp only: nat_le_iff)
  qed
  have dvd: "?n mod ?q = 0"
  proof (cases "?n < 2 ^ 53")
    case True
    then have "bitLength ?n \<le> 53" by (rule bitLength_le)
    then show ?thesis by simp
  next
    case False
    then have eq: "?n = 2 ^ 53" using n by simp
    have "?n < 2 ^ 54" using n by simp
    then have "bitLength ?n \<le> 54" by (rule bitLength_le)
    then have "bitLength ?n - 53 \<le> 53" by simp
    then have "(2::nat) ^ (bitLength ?n - 53) dvd 2 ^ 53" by (rule le_imp_power_dvd)
    then show ?thesis by (simp only: eq mod_eq_0_iff_dvd)
  qed
  have q: "0 < ?q" by simp
  have lo: "(?n div ?q) * ?q = ?n" using dvd by (simp add: mod_eq_0_iff_dvd)
  have "roundDouble x = sgn x * int ?n"
    unfolding roundDouble_def Let_def using dvd lo q by simp
  then show ?thesis by (simp add: sgn_if)
qed

lemma jsAdd_safe: "safeInteger x \<Longrightarrow> jsAdd x 1 = x + 1"
  by (simp add: jsAdd_def safeInteger_def roundDouble_exact)

lemma jsSub_safe: "safeInteger (x - y) \<Longrightarrow> jsSub x y = x - y"
  by (simp add: jsSub_def safeInteger_def roundDouble_exact)

lemma first_identifier_safe:
  "safeInteger L \<Longrightarrow> safeInteger (L + 1 - n) \<Longrightarrow> jsSub (jsAdd L 1) n = L + 1 - n"
  by (simp add: jsAdd_safe jsSub_safe)

section \<open>Identifiers of a batch\<close>

lemma assignOne:
  assumes pk: "getPrimaryKeyInfo reg (cls m) = Inr pk"
    and ok: "getValues reg m None = Inr d"
  shows "\<exists>s. setPrimaryKey reg m (Num n) = Inr (m\<lparr>props := (props m)(propertyKey pk := Num n)\<rparr>)
     \<and> getValues reg (m\<lparr>props := (props m)(propertyKey pk := Num n)\<rparr>) None = Inr s
     \<and> setSaved reg (m\<lparr>props := (props m)(propertyKey pk := Num n)\<rparr>) True
         = Inr (m\<lparr>props := (props m)(propertyKey pk := Num n), saved := True, original := Some s\<rparr>)"
proof -
  let ?m = "m\<lparr>props := (props m)(propertyKey pk := Num n)\<rparr>"
  have "\<forall>c\<in>set (getColumns reg (cls m)). \<not> isEmptyField (props m) c"
    using ok getValues_all_ok_iff[of reg m] by blast
  then have "\<forall>c\<in>set (getColumns reg (cls ?m)). \<not> isEmptyField (props ?m) c"
    using isEmptyField_update[of "Num n" "props m" "propertyKey pk"] by auto
  then obtain s where s: "getValues reg ?m None = Inr s"
    using getValues_all_ok_iff[of reg ?m] by blast
  show ?thesis
    using pk s by (auto simp: setPrimaryKey_def setSaved_def)
qed

lemma assignKeys_ok:
  assumes pk: "getPrimaryKeyInfo reg M = Inr pk"
  shows "\<forall>m\<in>set models. cls m = M \<Longrightarrow>
     \<forall>m\<in>set models. \<exists>d. getValues reg m None = Inr d \<Longrightarrow>
     index + length models \<le> length ids \<Longrightarrow>
     \<exists>ms. assignKeys reg models ids index = Inr ms \<and> length ms = length models
       \<and> (\<forall>i<length models.
            cls (ms ! i) = M
          \<and> props (ms ! i) = (props (models ! i))(propertyKey pk := Num (ids ! (index + i)))
          \<and> saved (ms ! i)
          \<and> (\<exists>s. original (ms ! i) = Some s \<and> getValues reg (ms ! i) None = Inr s))"
proof (induction models arbitrary: index)
  case Nil
  then show ?case by simp
next
  case (Cons m models)
  have cm: "cls m = M" using Cons.prems(1) by simp
  from Cons.prems(2) obtain d where d: "getValues reg m None = Inr d" by auto
  have idx: "idAt ids index = Num (ids ! index)"
    using Cons.prems(3) by (simp add: idAt_def)
  let ?m1 = "m\<lparr>props := (props m)(propertyKey pk := Num (ids ! index))\<rparr>"
  from assignOne[of reg m pk d "ids ! index"] pk cm d obtain s where
    s1: "setPrimaryKey reg m (Num (ids ! index)) = Inr ?m1"
    and s2: "getValues reg ?m1 None = Inr s"
    and s3: "setSaved reg ?m1 True = Inr (?m1\<lparr>saved := True, original := Some s\<rparr>)"
    by auto
  let ?m2 = "?m1\<lparr>saved := True, original := Some s\<rparr>"
  have s4: "getValues reg ?m2 None = Inr s"
    using s2 by (simp add: getValues_def)
  have p1: "\<forall>m\<in>set models. cls m = M" using Cons.prems(1) by simp
  have p2: "\<forall>m\<in>set models. \<exists>d. getValues reg m None = Inr d" using Cons.prems(2) by simp
  have p3: "Suc index + length models \<le> length ids" using Cons.prems(3) by simp
  from Cons.IH[OF p1 p2 p3] obtain ms where
    ms: "assignKeys reg models ids (Suc index) = Inr ms"
    and len: "length ms = length models"
    and each: "\<forall>i<length models.
            cls (ms ! i) = M
          \<and> props (ms ! i) = (props (models ! i))(propertyKey pk := Num (ids ! (Suc index + i)))
          \<and> saved (ms ! i)
          \<and> (\<exists>s. original (ms ! i) = Some s \<and> getValues reg (ms ! i) None = Inr s)"
    by blast
  have res: "assignKeys reg (m # models) ids index = Inr (?m2 # ms)"
    using idx s1 s3 ms by simp
  have "\<forall>i<length (m # models).
            cls ((?m2 # ms) ! i) = M
          \<and> props ((?m2 # ms) ! i) = (props ((m # models) ! i))(propertyKey pk := Num (ids ! (index + i)))
          \<and> saved ((?m2 # ms) ! i)
          \<and> (\<exists>s. original ((?m2 # ms) ! i) = Some s \<and> getValues reg ((?m2 # ms) ! i) None = Inr s)"
  proof (intro allI impI)
    fix i assume i: "i < length (m # models)"
    show "cls ((?m2 # ms) ! i) = M
          \<and> props ((?m2 # ms) ! i) = (props ((m # models) ! i))(propertyKey pk := Num (ids ! (index + i)))
          \<and> saved ((?m2 # ms) ! i)
          \<and> (\<exists>s. original ((?m2 # ms) ! i) = Some s \<and> getValues reg ((?m2 # ms) ! i) None = Inr s)"
    proof (cases i)
      case 0
      then show ?thesis using cm s4 by simp
    next
      case (Suc j)
      then have "j < length models" using i by simp
      then show ?thesis using each Suc by simp
    qed
  qed
  then show ?case using res len by auto
qed

lemma getAllValues_ok:
  "getAllValues reg models = Inr vals \<Longrightarrow> \<forall>m\<in>set models. \<exists>d. getValues reg m None = Inr d"
  by (induction models arbitrary: vals) (auto split: sum.splits)

lemma getAllValues_map:
  "getAllValues reg models = Inr vals \<Longrightarrow> map (\<lambda>m. getValues reg m None) models = map Inr vals"
  by (induction models arbitrary: vals) (auto split: sum.splits)

lemma getAllValues_exists:
  "\<forall>m\<in>set models. \<exists>d. getValues reg m None = Inr d \<Longrightarrow> \<exists>vals. getAllValues reg models = Inr vals"
  by (induction models) auto

lemma length_range_int: "0 \<le> n \<Longrightarrow> length (range_int (l + 1 - n) l) = nat n"
  by (simp add: range_int_def)

lemma nth_range_int: "i < nat n \<Longrightarrow> range_int (l + 1 - n) l ! i = l + 1 - n + int i"
  by (simp add: range_int_def)

lemma lastReturned_last:
  "result \<noteq> [] \<Longrightarrow> lastReturned result = Inr (last result)"
  by (cases result) (simp_all add: lastReturned_def)

lemma bulkSave_core:
  assumes pk: "getPrimaryKeyInfo reg M = Inr pk"
    and cls: "\<forall>m\<in>set models. cls m = M"
    and vals: "getAllValues reg models = Inr vals"
    and last: "(if dialect a = postgres
                then lastReturned (fst (answer a (Insert (getTableName reg M) vals
                       (if dialect a = postgres then Some (name pk) else None))))
                else Inr (snd (answer a (Insert (getTableName reg M) vals
                       (if dialect a = postgres then Some (name pk) else None))))) = Inr L"
    and safe: "safeInteger L" "safeInteger (L + 1 - int (length models))"
  shows "\<exists>ms. bulkSave reg a M models
            = Inr (ms, snd (execute (Insert (getTableName reg M) vals
                       (if dialect a = postgres then Some (name pk) else None)) a))
     \<and> length ms = length models
     \<and> (\<forall>i<length models.
            cls (ms ! i) = M
          \<and> props (ms ! i) = (props (models ! i))
               (propertyKey pk := Num (L - int (length models) + 1 + int i))
          \<and> saved (ms ! i)
          \<and> (\<exists>s. original (ms ! i) = Some s \<and> getValues reg (ms ! i) None = Inr s))"
proof -
  let ?n = "int (length models)"
  let ?ids = "range_int (L + 1 - ?n) L"
  let ?st = "Insert (getTableName reg M) vals
               (if dialect a = postgres then Some (name pk) else None)"
  have first: "jsSub (jsAdd L 1) ?n = L + 1 - ?n"
    using safe by (rule first_identifier_safe)
  have len: "length ?ids = length models"
    using length_range_int[of ?n L] by simp
  have nth: "\<forall>i<length models. ?ids ! i = L - ?n + 1 + int i"
    using nth_range_int[of _ ?n L] by simp
  have ok: "\<forall>m\<in>set models. \<exists>d. getValues reg m None = Inr d"
    using vals by (rule getAllValues_ok)
  have "0 + length models \<le> length ?ids" using len by simp
  from assignKeys_ok[OF pk cls ok this] obtain ms where
    ms: "assignKeys reg models ?ids 0 = Inr ms"
    and lms: "length ms = length models"
    and each: "\<forall>i<length models.
            cls (ms ! i) = M
          \<and> props (ms ! i) = (props (models ! i))(propertyKey pk := Num (?ids ! (0 + i)))
          \<and> saved (ms ! i)
          \<and> (\<exists>s. original (ms ! i) = Some s \<and> getValues reg (ms ! i) None = Inr s)"
    by blast
  obtain result a1 where ex: "execute ?st a = (result, a1)"
    by (cases "execute ?st a")
  have result: "result = fst (answer a ?st)" and a1: "lastInsertedId a1 = snd (answer a ?st)"
    and d1: "dialect a1 = dialect a"
    using ex by (auto simp: execute_def)
  have lastId: "(if dialect a = postgres then lastReturned result
                 else Inr (lastInsertedId a1)) = Inr L"
    using last result a1 by (cases "dialect a = postgres") simp_all
  have "bulkSave reg a M models = Inr (ms, a1)"
    unfolding bulkSave_def Let_def
    by (simp only: vals pk sum.case ex prod.case lastId first ms)
  then have "bulkSave reg a M models = Inr (ms, snd (execute ?st a))"
    using ex by simp
  moreover have "\<forall>i<length models.
            cls (ms ! i) = M
          \<and> props (ms ! i) = (props (models ! i))
               (propertyKey pk := Num (L - ?n + 1 + int i))
          \<and> saved (ms ! i)
          \<and> (\<exists>s. original (ms ! i) = Some s \<and> getValues reg (ms ! i) None = Inr s)"
    using each nth by simp
  ultimately show ?thesis using lms by blast
qed

lemma threeUsers_ok: "\<forall>m\<in>set threeUsers. \<exists>d. getValues testRegistry m None = Inr d"
  by (simp add: threeUsers_def newUser_def getValues_def getColumns_def idColumn_def field_def)

lemma small_round: "\<bar>x\<bar> \<le> 1000 \<Longrightarrow> roundDouble x = x"
  by (rule roundDouble_exact) simp

lemma threeUsers_postgres:
  "map (\<lambda>m. props m ''id'')
     (savedModels (bulkSave testRegistry (testAdapter postgres [5, 9, 20] 0) User threeUsers))
   = [Num 18, Num 19, Num 20]"
  by (simp add: bulkSave_def savedModels_def threeUsers_def newUser_def testAdapter_def
      getValues_def getColumns_def getTableName_def getPrimaryKeyInfo_def
      idColumn_def field_def execute_def lastReturned_def range_int_def
      jsAdd_def jsSub_def small_round
      idAt_def setPrimaryKey_def setSaved_def upto.simps Let_def)

lemma parse16: "parseNumber ''16'' = Some 16"
  by (simp add: parseNumber_def digitValue_def)

lemma show25: "showInt 25 = ''25''"
  by (simp add: showInt_def showNat.simps digitChar_def)

text \<open>
  Claim C4. For every batch of \<open>N\<close> models of a class with a primary key whose column values
  materialise, inserted through an engine that reports a single last inserted identifier
  \<open>L\<close> (any dialect but postgres), where \<open>L\<close> and the first identifier \<open>L - N + 1\<close> are safe
  integers, \<open>_bulkSave\<close> returns; it has sent one insert of the \<open>N\<close> value records; the
  \<open>i\<close>-th model, counted from 0, holds \<open>L - N + 1 + i\<close> in its primary-key field and is
  otherwise unchanged; and every model is marked saved with a snapshot that is the column
  values of the model as it now is. Three models and the last inserted identifier 10 give
  8, 9 and 10 in order, all three saved.
\<close>

theorem bulkSave_contiguous_run:
  assumes engine: "dialect a \<noteq> postgres"
    and pk: "getPrimaryKeyInfo reg M = Inr pk"
    and cls: "\<forall>m\<in>set models. cls m = M"
    and vals: "getAllValues reg models = Inr vals"
    and last: "snd (answer a (Insert (getTableName reg M) vals None)) = L"
    and safe: "safeInteger L" "safeInteger (L + 1 - int (length models))"
  shows "\<exists>ms a'. bulkSave reg a M models = Inr (ms, a')
     \<and> executed a' = executed a @ [Insert (getTableName reg M) vals None]
     \<and> lastInsertedId a' = L
     \<and> length ms = length models
     \<and> (\<forall>i<length models.
            props (ms ! i) = (props (models ! i))
               (propertyKey pk := Num (L - int (length models) + 1 + int i))
          \<and> isSaved (ms ! i)
          \<and> (\<exists>s. getOriginal (ms ! i) = Some s \<and> getValues reg (ms ! i) None = Inr s))"
proof -
  have "(if dialect a = postgres
                then lastReturned (fst (answer a (Insert (getTableName reg M) vals
                       (if dialect a = postgres then Some (name pk) else None))))
                else Inr (snd (answer a (Insert (getTableName reg M) vals
                       (if dialect a = postgres then Some (name pk) else None))))) = Inr L"
    using engine last by simp
  from bulkSave_core[OF pk cls vals this safe] obtain ms where
    "bulkSave reg a M models = Inr (ms, snd (execute (Insert (getTableName reg M) vals
                       (if dialect a = postgres then Some (name pk) else None)) a))"
    "length ms = length models"
    "\<forall>i<length models.
            cls (ms ! i) = M
          \<and> props (ms ! i) = (props (models ! i))
               (propertyKey pk := Num (L - int (length models) + 1 + int i))
          \<and> saved (ms ! i)
          \<and> (\<exists>s. original (ms ! i) = Some s \<and> getValues reg (ms ! i) None = Inr s)"
    by blast
  then show ?thesis
    using last engine by (auto simp: isSaved_def getOriginal_def execute_def)
qed

theorem bulkSave_contiguous_run_witness:
  "props (savedModels (bulkSave testRegistry (testAdapter mysql [] 10) User threeUsers) ! 0) ''id'' = Num 8
   \<and> props (savedModels (bulkSave testRegistry (testAdapter mysql [] 10) User threeUsers) ! 1) ''id'' = Num 9
   \<and> props (savedModels (bulkSave testRegistry (testAdapter mysql [] 10) User threeUsers) ! 2) ''id'' = Num 10
   \<and> list_all isSaved (savedModels (bulkSave testRegistry (testAdapter mysql [] 10) User threeUsers))
   \<and> length (savedModels (bulkSave testRegistry (testAdapter mysql [] 10) User threeUsers)) = 3"
proof -
  let ?a = "testAdapter mysql [] 10"
  obtain vals where vals: "getAllValues testRegistry threeUsers = Inr vals"
    using getAllValues_exists[OF threeUsers_ok] by blast
  have engine: "dialect ?a \<noteq> postgres" by (simp add: testAdapter_def)
  have cls: "\<forall>m\<in>set threeUsers. cls m = User" by (simp add: threeUsers_def newUser_def)
  have last: "snd (answer ?a (Insert (getTableName testRegistry User) vals None)) = 10"
    by (simp add: testAdapter_def)
  have n: "length threeUsers = 3" by (simp add: threeUsers_def)
  have safe: "safeInteger 10" "safeInteger (10 + 1 - int (length threeUsers))"
    by (simp_all add: safeInteger_def n)
  from bulkSave_contiguous_run[OF engine user_pk cls vals last safe] obtain ms a' where
    res: "bulkSave testRegistry ?a User threeUsers = Inr (ms, a')"
    and len: "length ms = length threeUsers"
    and each: "\<forall>i<length threeUsers.
            props (ms ! i) = (props (threeUsers ! i))
               (propertyKey idColumn := Num (10 - int (length threeUsers) + 1 + int i))
          \<and> isSaved (ms ! i)
          \<and> (\<exists>s. getOriginal (ms ! i) = Some s \<and> getValues testRegistry (ms ! i) None = Inr s)"
    by blast
  have sm: "savedModels (bulkSave testRegistry ?a User threeUsers) = ms"
    using res by (simp add: savedModels_def)
  have e0: "props (ms ! 0) ''id'' = Num 8 \<and> isSaved (ms ! 0)"
    using each n by (simp add: idColumn_def)
  have e1: "props (ms ! 1) ''id'' = Num 9 \<and> isSaved (ms ! 1)"
    using each n by (simp add: idColumn_def)
  have e2: "props (ms ! 2) ''id'' = Num 10 \<and> isSaved (ms ! 2)"
    using each n by (simp add: idColumn_def)
  have "\<forall>i<length ms. isSaved (ms ! i)"
    using each len by simp
  then have all: "list_all isSaved ms"
    by (simp add: list_all_length)
  show ?thesis using sm e0 e1 e2 all len n by simp
qed

text \<open>
  Beyond the safe integers the sum is rounded as the doubles round it: with the last
  inserted identifier \<open>2^53\<close> and one model, \<open>2^53 + 1\<close> rounds to \<open>2^53\<close>, the run is
  \<open>2^53 - 1, 2^53\<close>, and the model is assigned \<open>2^53 - 1\<close>.
\<close>

lemma roundDouble_tie: "roundDouble 9007199254740993 = 9007199254740992"
proof -
  have "(9007199254740993::nat) < 2 ^ 54" by simp
  then have up: "bitLength 9007199254740993 \<le> 54" by (rule bitLength_le)
  have "\<not> bitLength 9007199254740993 \<le> 53"
  proof
    assume le: "bitLength 9007199254740993 \<le> 53"
    have step: "bitLength n \<le> Suc k \<Longrightarrow> n \<noteq> 0 \<Longrightarrow> bitLength (n div 2) \<le> k" for n k
      by (subst (asm) bitLength.simps) simp
    have "n < 2 ^ k" if "bitLength n \<le> k" for n k
      using that
    proof (induction k arbitrary: n)
      case 0
      then show ?case by (subst (asm) bitLength.simps) (simp split: if_splits)
    next
      case (Suc k)
      show ?case
      proof (cases "n = 0")
        case True
        then show ?thesis by simp
      next
        case False
        have "n div 2 < 2 ^ k" using step[OF Suc.prems False] by (rule Suc.IH)
        then show ?thesis by simp
      qed
    qed
    from this[OF le] show False by simp
  qed
  then have "bitLength 9007199254740993 = 54" using up by simp
  then show ?thesis
    by (simp add: roundDouble_def Let_def)
qed

lemma bulkSave_beyond_safe_integers:
  "map (\<lambda>m. props m ''id'')
     (savedModels (bulkSave testRegistry (testAdapter mysql [] 9007199254740992) User
        [newUser (Str ''a@b.com'') (Num 16)]))
   = [Num 9007199254740991]"
proof -
  have add: "jsAdd 9007199254740992 1 = 9007199254740992"
    by (simp add: jsAdd_def roundDouble_tie)
  have sub: "jsSub 9007199254740992 1 = 9007199254740991"
    by (simp add: jsSub_def roundDouble_exact)
  have run: "range_int 9007199254740991 9007199254740992
      = [9007199254740991, 9007199254740992]"
    by (simp add: range_int_def upto.simps)
  show ?thesis
    by (simp add: bulkSave_def savedModels_def newUser_def testAdapter_def
      getValues_def getColumns_def getTableName_def getPrimaryKeyInfo_def
      idColumn_def field_def execute_def add sub run
      idAt_def setPrimaryKey_def setSaved_def Let_def)
qed

text \<open>
  Claim C5, as amended. Against postgres the insert carries a returning clause, and
  \<open>_bulkSave\<close> reads the identifier \<open>L\<close> of the last returned row only: the range
  computation is not bypassed, and, \<open>L\<close> and \<open>L - N + 1\<close> being safe integers, the \<open>i\<close>-th
  model, counted from 0, is assigned \<open>L - N + 1 + i\<close>, whatever the other returned rows
  hold. The identifiers assigned are the run from \<open>L - N + 1\<close> through \<open>L\<close>.
\<close>

theorem bulkSave_postgres_last_returned:
  assumes engine: "dialect a = postgres"
    and pk: "getPrimaryKeyInfo reg M = Inr pk"
    and cls: "\<forall>m\<in>set models. cls m = M"
    and vals: "getAllValues reg models = Inr vals"
    and rows: "fst (answer a (Insert (getTableName reg M) vals (Some (name pk)))) = result"
    and nonempty: "result \<noteq> []"
    and last: "last result = L"
    and safe: "safeInteger L" "safeInteger (L + 1 - int (length models))"
  shows "\<exists>ms a'. bulkSave reg a M models = Inr (ms, a')
     \<and> executed a' = executed a @ [Insert (getTableName reg M) vals (Some (name pk))]
     \<and> length ms = length models
     \<and> (\<forall>i<length models.
            props (ms ! i) (propertyKey pk) = Num (L - int (length models) + 1 + int i)
          \<and> isSaved (ms ! i))
     \<and> map (\<lambda>m. props m (propertyKey pk)) ms
          = map Num (range_int (L + 1 - int (length models)) L)"
proof -
  have "(if dialect a = postgres
                then lastReturned (fst (answer a (Insert (getTableName reg M) vals
                       (if dialect a = postgres then Some (name pk) else None))))
                else Inr (snd (answer a (Insert (getTableName reg M) vals
                       (if dialect a = postgres then Some (name pk) else None))))) = Inr L"
    using engine rows last lastReturned_last[OF nonempty] by simp
  from bulkSave_core[OF pk cls vals this safe] obtain ms where
    res: "bulkSave reg a M models = Inr (ms, snd (execute (Insert (getTableName reg M) vals
                       (if dialect a = postgres then Some (name pk) else None)) a))"
    and len: "length ms = length models"
    and each: "\<forall>i<length models.
            cls (ms ! i) = M
          \<and> props (ms ! i) = (props (models ! i))
               (propertyKey pk := Num (L - int (length models) + 1 + int i))
          \<and> saved (ms ! i)
          \<and> (\<exists>s. original (ms ! i) = Some s \<and> getValues reg (ms ! i) None = Inr s)"
    by blast
  have run: "map (\<lambda>m. props m (propertyKey pk)) ms
          = map Num (range_int (L + 1 - int (length models)) L)"
  proof (rule nth_equalityI)
    show "length (map (\<lambda>m. props m (propertyKey pk)) ms)
        = length (map Num (range_int (L + 1 - int (length models)) L))"
      using len length_range_int[of "int (length models)" L] by simp
  next
    fix i assume "i < length (map (\<lambda>m. props m (propertyKey pk)) ms)"
    then have i: "i < length models" using len by simp
    then have "range_int (L + 1 - int (length models)) L ! i = L + 1 - int (length models) + int i"
      using nth_range_int[of i "int (length models)" L] by simp
    moreover have "i < length (range_int (L + 1 - int (length models)) L)"
      using i length_range_int[of "int (length models)" L] by simp
    ultimately show "map (\<lambda>m. props m (propertyKey pk)) ms ! i
        = map Num (range_int (L + 1 - int (length models)) L) ! i"
      using each i len by simp
  qed
  show ?thesis
    using res len each run engine by (auto simp: isSaved_def execute_def)
qed

theorem bulkSave_postgres_last_returned_witness:
  "props (savedModels (bulkSave testRegistry (testAdapter postgres [8, 9, 10] 0)
            User threeUsers) ! 0) ''id'' = Num 8
   \<and> props (savedModels (bulkSave testRegistry (testAdapter postgres [8, 9, 10] 0)
            User threeUsers) ! 2) ''id'' = Num 10
   \<and> length (savedModels (bulkSave testRegistry (testAdapter postgres [8, 9, 10] 0)
            User threeUsers)) = 3"
proof -
  let ?a = "testAdapter postgres [8, 9, 10] 0"
  obtain vals where vals: "getAllValues testRegistry threeUsers = Inr vals"
    using getAllValues_exists[OF threeUsers_ok] by blast
  have engine: "dialect ?a = postgres" by (simp add: testAdapter_def)
  have cls: "\<forall>m\<in>set threeUsers. cls m = User" by (simp add: threeUsers_def newUser_def)
  have rows: "fst (answer ?a (Insert (getTableName testRegistry User) vals (Some (name idColumn))))
      = [8, 9, 10]"
    by (simp add: testAdapter_def)
  have nonempty: "[8, 9, 10::int] \<noteq> []" by simp
  have last: "last [8, 9, 10::int] = 10" by simp
  have n: "length threeUsers = 3" by (simp add: threeUsers_def)
  have safe: "safeInteger 10" "safeInteger (10 + 1 - int (length threeUsers))"
    by (simp_all add: safeInteger_def n)
  from bulkSave_postgres_last_returned[OF engine user_pk cls vals rows nonempty last safe]
  obtain ms a' where
    res: "bulkSave testRegistry ?a User threeUsers = Inr (ms, a')"
    and len: "length ms = length threeUsers"
    and each: "\<forall>i<length threeUsers.
            props (ms ! i) (propertyKey idColumn) = Num (10 - int (length threeUsers) + 1 + int i)
          \<and> isSaved (ms ! i)"
    by blast
  have sm: "savedModels (bulkSave testRegistry ?a User threeUsers) = ms"
    using res by (simp add: savedModels_def)
  have e0: "props (ms ! 0) ''id'' = Num 8"
    using each n by (simp add: idColumn_def)
  have e2: "props (ms ! 2) ''id'' = Num 10"
    using each n by (simp add: idColumn_def)
  show ?thesis using sm e0 e2 len n by simp
qed

text \<open>
  Claim C5 as stated fails: when the database returns the identifiers 5, 9 and 20 for
  three models, the models are assigned 18, 19 and 20, not the identifiers returned for
  their positions.
\<close>

theorem bulkSave_postgres_not_positional:
  "map (\<lambda>m. props m ''id'')
     (savedModels (bulkSave testRegistry (testAdapter postgres [5, 9, 20] 0) User threeUsers))
     = [Num 18, Num 19, Num 20]
   \<and> fst (answer (testAdapter postgres [5, 9, 20] 0)
            (Insert ''users'' [] (Some ''id''))) = [5, 9, 20]
   \<and> map (\<lambda>m. props m ''id'')
     (savedModels (bulkSave testRegistry (testAdapter postgres [5, 9, 20] 0) User threeUsers))
     \<noteq> map Num [5, 9, 20]"
  unfolding threeUsers_postgres by (simp add: testAdapter_def)

text \<open>
  Claim C6. \<open>save\<close> normalises the instance before it materialises the values it writes;
  \<open>_bulkSave\<close> materialises the values of the models as they are. For a user whose \<open>email\<close>
  is the number 25 and whose \<open>age\<close> is the string \<open>"16"\<close>, the bulk insert writes 25 and
  \<open>"16"\<close>, where \<open>save\<close> writes \<open>"25"\<close> and 16.
\<close>

theorem bulkSave_writes_raw_values:
  "statementsOf (bulkSave testRegistry (testAdapter mysql [] 10) User [newUser (Num 25) (Str ''16'')])
     = [Insert ''users'' [[''id'' \<mapsto> Null, ''email'' \<mapsto> Num 25, ''my_age'' \<mapsto> Str ''16'']] None]
   \<and> statementsOf (save testRegistry (testAdapter mysql [] 10) (newUser (Num 25) (Str ''16'')))
     = [Insert ''users'' [[''id'' \<mapsto> Null, ''email'' \<mapsto> Str ''25'', ''my_age'' \<mapsto> Num 16]] None]"
proof -
  have 1: "statementsOf (bulkSave testRegistry (testAdapter mysql [] 10) User
             [newUser (Num 25) (Str ''16'')])
     = [Insert ''users'' [[''id'' \<mapsto> Null, ''email'' \<mapsto> Num 25, ''my_age'' \<mapsto> Str ''16'']] None]"
    by (simp add: bulkSave_def statementsOf_def newUser_def testAdapter_def
      getValues_def user_columns getTableName_def user_pk
      idColumn_def field_def execute_def range_int_def jsAdd_def jsSub_def small_round
      idAt_def setPrimaryKey_def setSaved_def upto.simps Let_def)
  have 2: "statementsOf (save testRegistry (testAdapter mysql [] 10) (newUser (Num 25) (Str ''16'')))
     = [Insert ''users'' [[''id'' \<mapsto> Null, ''email'' \<mapsto> Str ''25'', ''my_age'' \<mapsto> Num 16]] None]"
    by (simp add: save_def statementsOf_def newUser_def testAdapter_def normalizeModel_def
      isSaved_def getValues_def user_columns getTableName_def user_pk
      idColumn_def field_def execute_def setPrimaryKey_def setSaved_def Let_def
      parse16 show25)
  show ?thesis using 1 2 by blast
qed

section \<open>Saving an instance that is not dirty\<close>

lemma normalizeValue_idem: "normalizeValue ty (normalizeValue ty v) = normalizeValue ty v"
  by (cases ty; cases v) (auto split: option.splits)

lemma normalizeFields_other:
  "k \<notin> propertyKey ` set cs \<Longrightarrow> normalizeFields cs f k = f k"
  by (induction cs arbitrary: f) auto

lemma normalizeFields_column:
  "distinct (map propertyKey cs) \<Longrightarrow> c \<in> set cs \<Longrightarrow>
   normalizeFields cs f (propertyKey c) = normalizeValue (ftype c) (f (propertyKey c))"
proof (induction cs arbitrary: f)
  case Nil
  then show ?case by simp
next
  case (Cons x cs)
  show ?case
  proof (cases "c = x")
    case True
    then have "propertyKey c \<notin> propertyKey ` set cs" using Cons.prems(1) by auto
    then show ?thesis using True by (simp add: normalizeFields_other)
  next
    case False
    then have c: "c \<in> set cs" using Cons.prems(2) by simp
    then have "propertyKey x \<noteq> propertyKey c" using Cons.prems(1) by auto
    then show ?thesis using Cons.IH[OF _ c] Cons.prems(1) by simp
  qed
qed

lemma compare_clean_iff:
  "getOriginal this = Some snapshot \<Longrightarrow>
   fst (compareWithOriginal reg this) = False \<longleftrightarrow>
     (\<forall>c\<in>set (getColumns reg (cls this)).
        normalizeValue (ftype c) (props this (propertyKey c)) = prop_get snapshot (name c))"
  by (auto simp: compareWithOriginal_def Let_def filter_empty_conv)

lemma compare_clean_changed:
  "fst (compareWithOriginal reg this) = False \<Longrightarrow> compareWithOriginal reg this = (False, [])"
  by (auto simp: compareWithOriginal_def Let_def split: option.splits)

lemma save_clean_core:
  assumes pk: "getPrimaryKeyInfo reg (cls this) = Inr pk"
    and keys: "distinct (map propertyKey (getColumns reg (cls this)))"
    and saved: "isSaved this"
    and snap: "getOriginal this = Some snapshot"
    and captured: "getValues reg (this\<lparr>props := f0\<rparr>) None = Inr snapshot"
    and clean: "fst (compareWithOriginal reg this) = False"
  shows "save reg a this = Inr (normalizeModel reg this, a)"
proof -
  let ?cols = "getColumns reg (cls this)"
  let ?n = "normalizeModel reg this"
  have ncls: "cls ?n = cls this" and nsaved: "isSaved ?n" and nsnap: "getOriginal ?n = Some snapshot"
    using saved snap by (simp_all add: normalizeModel_def isSaved_def getOriginal_def)
  have eq: "\<forall>c\<in>set ?cols.
        normalizeValue (ftype c) (props this (propertyKey c)) = prop_get snapshot (name c)"
    using clean compare_clean_iff[OF snap, of reg] by blast
  have nprops: "\<forall>c\<in>set ?cols. props ?n (propertyKey c) = prop_get snapshot (name c)"
    using eq keys by (simp add: normalizeModel_def normalizeFields_column)
  have "\<forall>c\<in>set (getColumns reg (cls ?n)).
        normalizeValue (ftype c) (props ?n (propertyKey c)) = prop_get snapshot (name c)"
  proof (intro ballI)
    fix c assume "c \<in> set (getColumns reg (cls ?n))"
    then have c: "c \<in> set ?cols" using ncls by simp
    have "props ?n (propertyKey c) = normalizeValue (ftype c) (props this (propertyKey c))"
      using keys c by (simp add: normalizeModel_def normalizeFields_column)
    then have "normalizeValue (ftype c) (props ?n (propertyKey c))
        = normalizeValue (ftype c) (props this (propertyKey c))"
      by (simp only: normalizeValue_idem)
    then show "normalizeValue (ftype c) (props ?n (propertyKey c)) = prop_get snapshot (name c)"
      using eq c by simp
  qed
  then have nclean: "compareWithOriginal reg ?n = (False, [])"
    using compare_clean_iff[OF nsnap, of reg] compare_clean_changed[of reg ?n] by blast
  have ok0: "\<forall>c\<in>set ?cols. \<not> isEmptyField f0 c"
    using captured getValues_all_ok_iff[of reg "this\<lparr>props := f0\<rparr>"] by auto
  have snapshot: "snapshot = fold (\<lambda>c d. d(name c \<mapsto> columnValue f0 c)) ?cols Map.empty"
    using captured getValues_all_Inr[of reg "this\<lparr>props := f0\<rparr>"] ok0 by simp
  have snapAt: "prop_get snapshot (name c) \<noteq> Undefined" if "c \<in> set ?cols" for c
  proof -
    have "find (\<lambda>x. name x = name c) (rev ?cols) \<noteq> None"
      using that by (auto simp: find_None_iff)
    then show ?thesis
      by (auto simp: snapshot fold_columns_lookup prop_get_def columnValue_defined)
  qed
  have ok1: "\<forall>c\<in>set (getColumns reg (cls ?n)). \<not> isEmptyField (props ?n) c"
    using nprops snapAt ncls by (auto simp: isEmptyField_def)
  have cv: "columnValue (props ?n) c = prop_get snapshot (name c)" if "c \<in> set ?cols" for c
    using nprops snapAt that by (auto simp: columnValue_def)
  have "fold (\<lambda>c d. d(name c \<mapsto> columnValue (props ?n) c)) ?cols Map.empty = snapshot"
  proof
    fix k
    show "fold (\<lambda>c d. d(name c \<mapsto> columnValue (props ?n) c)) ?cols Map.empty k = snapshot k"
    proof (cases "find (\<lambda>x. name x = k) (rev ?cols)")
      case None
      then show ?thesis by (simp add: snapshot fold_columns_lookup)
    next
      case (Some c)
      then have c: "name c = k" "c \<in> set ?cols"
        using find_Some_D[OF Some] by auto
      have "snapshot k = Some (columnValue f0 c)"
        using Some by (simp add: snapshot fold_columns_lookup)
      then have "prop_get snapshot (name c) = columnValue f0 c"
        using c by (simp add: prop_get_def)
      then show ?thesis
        using Some cv[OF c(2)] by (simp add: snapshot fold_columns_lookup)
    qed
  qed
  then have nvals: "getValues reg ?n None = Inr snapshot"
    using getValues_all_Inr[OF ok1] ncls by simp
  have "?n\<lparr>saved := True, original := Some snapshot\<rparr> = ?n"
    using nsaved nsnap by (simp add: isSaved_def getOriginal_def)
  then have again: "setSaved reg ?n True = Inr ?n"
    using nvals by (simp add: setSaved_def)
  show ?thesis
    unfolding save_def Let_def
    by (simp only: pk sum.case nsaved if_True nclean prod.case if_False again)
qed

lemma savedUser_facts:
  "getPrimaryKeyInfo testRegistry (cls (savedUser v)) = Inr idColumn"
  "distinct (map propertyKey (getColumns testRegistry (cls (savedUser v))))"
  "isSaved (savedUser v)"
  "getOriginal (savedUser v)
     = Some [''id'' \<mapsto> Num 1, ''email'' \<mapsto> Str ''a@b.com'', ''my_age'' \<mapsto> Num 16]"
  "getValues testRegistry (savedUser v\<lparr>props := props (savedUser (Num 16))\<rparr>) None
     = Inr [''id'' \<mapsto> Num 1, ''email'' \<mapsto> Str ''a@b.com'', ''my_age'' \<mapsto> Num 16]"
  by (simp_all add: savedUser_def user_pk user_columns idColumn_def field_def isSaved_def
      getOriginal_def getValues_def)

lemma savedUser_clean:
  "fst (compareWithOriginal testRegistry (savedUser (Num 16))) = False"
  "fst (compareWithOriginal testRegistry (savedUser (Str ''16''))) = False"
  by (simp_all add: compareWithOriginal_def savedUser_def getOriginal_def user_columns
      idColumn_def field_def prop_get_def parse16)

text \<open>
  Claim C10, as amended. For every instance of a model with a primary key and distinct
  property keys that is saved, whose snapshot was captured from its column values, and
  for which \<open>compareWithOriginal\<close> reports \<open>isDirty\<close> false, \<open>save\<close> returns, sends no
  statement to the adapter, and leaves the saved flag true and the snapshot as it was;
  every property outside the declared fields is unchanged, and every declared field holds
  the normalised form of its previous value. So \<open>save\<close> leaves the whole instance unchanged
  when it was already in normalised form.
\<close>

theorem save_clean_instance:
  assumes pk: "getPrimaryKeyInfo reg (cls this) = Inr pk"
    and keys: "distinct (map propertyKey (getColumns reg (cls this)))"
    and saved: "isSaved this"
    and snap: "getOriginal this = Some snapshot"
    and captured: "getValues reg (this\<lparr>props := f0\<rparr>) None = Inr snapshot"
    and clean: "fst (compareWithOriginal reg this) = False"
  shows "save reg a this = Inr (normalizeModel reg this, a)
     \<and> statementsOf (save reg a this) = executed a
     \<and> isSaved (normalizeModel reg this)
     \<and> getOriginal (normalizeModel reg this) = Some snapshot
     \<and> (\<forall>c\<in>set (getColumns reg (cls this)).
           props (normalizeModel reg this) (propertyKey c)
             = normalizeValue (ftype c) (props this (propertyKey c)))
     \<and> (\<forall>k. k \<notin> propertyKey ` set (getColumns reg (cls this)) \<longrightarrow>
           props (normalizeModel reg this) k = props this k)
     \<and> (normalizeModel reg this = this \<longrightarrow> save reg a this = Inr (this, a))"
proof -
  have res: "save reg a this = Inr (normalizeModel reg this, a)"
    using pk keys saved snap captured clean by (rule save_clean_core)
  have "statementsOf (save reg a this) = executed a"
    by (simp add: res statementsOf_def)
  moreover have "isSaved (normalizeModel reg this)"
    and "getOriginal (normalizeModel reg this) = Some snapshot"
    using saved snap by (simp_all add: normalizeModel_def isSaved_def getOriginal_def)
  moreover have "\<forall>c\<in>set (getColumns reg (cls this)).
           props (normalizeModel reg this) (propertyKey c)
             = normalizeValue (ftype c) (props this (propertyKey c))"
    using keys by (simp add: normalizeModel_def normalizeFields_column)
  moreover have "\<forall>k. k \<notin> propertyKey ` set (getColumns reg (cls this)) \<longrightarrow>
           props (normalizeModel reg this) k = props this k"
    by (simp add: normalizeModel_def normalizeFields_other)
  ultimately show ?thesis using res by simp
qed

theorem save_clean_instance_witness:
  "isSaved (savedUser (Num 16))
   \<and> fst (compareWithOriginal testRegistry (savedUser (Num 16))) = False
   \<and> save testRegistry (testAdapter mysql [] 0) (savedUser (Num 16))
       = Inr (savedUser (Num 16), testAdapter mysql [] 0)"
proof -
  have n: "normalizeModel testRegistry (savedUser (Num 16)) = savedUser (Num 16)"
    by (simp add: normalizeModel_def savedUser_def user_columns idColumn_def field_def)
  have "normalizeModel testRegistry (savedUser (Num 16)) = savedUser (Num 16) \<longrightarrow>
      save testRegistry (testAdapter mysql [] 0) (savedUser (Num 16))
       = Inr (savedUser (Num 16), testAdapter mysql [] 0)"
    using save_clean_instance[OF savedUser_facts(1-5) savedUser_clean(1),
        of "testAdapter mysql [] 0"]
    by blast
  then show ?thesis using n savedUser_facts(3) savedUser_clean(1) by blast
qed

text \<open>
  Claim C10 as stated fails: the saved user whose \<open>age\<close> was assigned the string \<open>"16"\<close>
  is not dirty against the snapshot value 16, and \<open>save\<close> replaces the string by the number.
\<close>

theorem save_clean_changes_field:
  "isSaved (savedUser (Str ''16''))
   \<and> fst (compareWithOriginal testRegistry (savedUser (Str ''16''))) = False
   \<and> props (savedUser (Str ''16'')) ''age'' = Str ''16''
   \<and> map_option (\<lambda>m. props m ''age'')
        (savedModel (save testRegistry (testAdapter mysql [] 0) (savedUser (Str ''16''))))
      = Some (Num 16)"
proof -
  have "save testRegistry (testAdapter mysql [] 0) (savedUser (Str ''16''))
      = Inr (normalizeModel testRegistry (savedUser (Str ''16'')), testAdapter mysql [] 0)"
    using savedUser_facts(1-5) savedUser_clean(2) by (rule save_clean_core)
  moreover have "props (normalizeModel testRegistry (savedUser (Str ''16''))) ''age'' = Num 16"
    by (simp add: normalizeModel_def savedUser_def user_columns idColumn_def field_def parse16)
  moreover have "props (savedUser (Str ''16'')) ''age'' = Str ''16''"
    by (simp add: savedUser_def)
  ultimately show ?thesis
    using savedUser_facts(3) savedUser_clean(2) by (simp add: savedModel_def)
qed

end
